theory Spec2Isabelle
  imports Complex_Main
begin

section \<open>JavaScript numbers\<close>

text \<open>
  A JavaScript number is modelled as an exact real or one of the three special values of
  IEEE 754. The operations below follow the IEEE rules for the special values (a
  comparison with \<open>NaN\<close> is false, \<open>Infinity - Infinity\<close> and \<open>0 * Infinity\<close> are
  \<open>NaN\<close>, a nonzero number divided by zero is infinite). Rounding, overflow of a finite
  result and the sign of zero are not modelled: finite arithmetic is exact, and zero
  divides as \<open>+0\<close>.
\<close>

datatype num = Fin real | PInf | NInf | NaN

instantiation num :: "{plus, minus, uminus, times, inverse, abs, ord}"
begin

fun plus_num :: "num \<Rightarrow> num \<Rightarrow> num" where
  "plus_num NaN b = NaN"
| "plus_num a NaN = NaN"
| "plus_num PInf NInf = NaN"
| "plus_num NInf PInf = NaN"
| "plus_num PInf b = PInf"
| "plus_num a PInf = PInf"
| "plus_num NInf b = NInf"
| "plus_num a NInf = NInf"
| "plus_num (Fin a) (Fin b) = Fin (a + b)"

fun uminus_num :: "num \<Rightarrow> num" where
  "uminus_num (Fin a) = Fin (- a)"
| "uminus_num PInf = NInf"
| "uminus_num NInf = PInf"
| "uminus_num NaN = NaN"

definition minus_num :: "num \<Rightarrow> num \<Rightarrow> num" where
  "minus_num a b = a + (- b)"

fun times_num :: "num \<Rightarrow> num \<Rightarrow> num" where
  "times_num NaN b = NaN"
| "times_num a NaN = NaN"
| "times_num (Fin a) (Fin b) = Fin (a * b)"
| "times_num (Fin a) PInf = (if a = 0 then NaN else if 0 < a then PInf else NInf)"
| "times_num (Fin a) NInf = (if a = 0 then NaN else if 0 < a then NInf else PInf)"
| "times_num PInf (Fin b) = (if b = 0 then NaN else if 0 < b then PInf else NInf)"
| "times_num NInf (Fin b) = (if b = 0 then NaN else if 0 < b then NInf else PInf)"
| "times_num PInf PInf = PInf"
| "times_num PInf NInf = NInf"
| "times_num NInf PInf = NInf"
| "times_num NInf NInf = PInf"

fun divide_num :: "num \<Rightarrow> num \<Rightarrow> num" where
  "divide_num NaN b = NaN"
| "divide_num a NaN = NaN"
| "divide_num (Fin a) (Fin b) =
     (if b = 0 then (if a = 0 then NaN else if 0 < a then PInf else NInf) else Fin (a / b))"
| "divide_num (Fin a) PInf = Fin 0"
| "divide_num (Fin a) NInf = Fin 0"
| "divide_num PInf (Fin b) = (if 0 \<le> b then PInf else NInf)"
| "divide_num NInf (Fin b) = (if 0 \<le> b then NInf else PInf)"
| "divide_num a b = NaN"

definition inverse_num :: "num \<Rightarrow> num" where
  "inverse_num a = divide (Fin 1) a"

fun abs_num :: "num \<Rightarrow> num" where
  "abs_num (Fin a) = Fin \<bar>a\<bar>"
| "abs_num PInf = PInf"
| "abs_num NInf = PInf"
| "abs_num NaN = NaN"

fun less_num :: "num \<Rightarrow> num \<Rightarrow> bool" where
  "less_num NaN b = False"
| "less_num a NaN = False"
| "less_num (Fin a) (Fin b) = (a < b)"
| "less_num a NInf = False"
| "less_num NInf b = True"
| "less_num PInf b = False"
| "less_num (Fin a) PInf = True"

fun less_eq_num :: "num \<Rightarrow> num \<Rightarrow> bool" where
  "less_eq_num NaN b = False"
| "less_eq_num a NaN = False"
| "less_eq_num (Fin a) (Fin b) = (a \<le> b)"
| "less_eq_num NInf b = True"
| "less_eq_num a PInf = True"
| "less_eq_num a b = False"

instance ..

end

text \<open>\<open>Number.isFinite\<close>, \<open>isNaN\<close> and the functions of \<open>Math\<close> that the code calls.\<close>

fun isFinite :: "num \<Rightarrow> bool" where
  "isFinite (Fin a) = True"
| "isFinite a = False"

fun isNaN :: "num \<Rightarrow> bool" where
  "isNaN NaN = True"
| "isNaN a = False"

fun Math_min :: "num \<Rightarrow> num \<Rightarrow> num" where
  "Math_min NaN b = NaN"
| "Math_min a NaN = NaN"
| "Math_min a b = (if b < a then b else a)"

fun Math_sqrt :: "num \<Rightarrow> num" where
  "Math_sqrt (Fin a) = (if a < 0 then NaN else Fin (sqrt a))"
| "Math_sqrt PInf = PInf"
| "Math_sqrt a = NaN"

fun Math_sin :: "num \<Rightarrow> num" where
  "Math_sin (Fin a) = Fin (sin a)"
| "Math_sin a = NaN"

fun Math_cos :: "num \<Rightarrow> num" where
  "Math_cos (Fin a) = Fin (cos a)"
| "Math_cos a = NaN"

fun Math_floor :: "num \<Rightarrow> num" where
  "Math_floor (Fin a) = Fin (of_int \<lfloor>a\<rfloor>)"
| "Math_floor a = a"

text \<open>The real number a finite value stands for.\<close>

fun theReal :: "num \<Rightarrow> real" where
  "theReal (Fin a) = a"
| "theReal a = 0"

text \<open>
  A typed array (\<open>Float32Array\<close>, \<open>Uint8ClampedArray\<close>) as a list. A read outside the
  array gives \<open>undefined\<close>, which every arithmetic operation and comparison of the code
  treats as \<open>NaN\<close>; a write outside the array is ignored, as \<open>list_update\<close> does.
\<close>

definition rd :: "num list \<Rightarrow> nat \<Rightarrow> num" where
  "rd xs i = (if i < length xs then xs ! i else NaN)"

section \<open>Gesture types (types.ts)\<close>

datatype GestureType = NONE | OPEN_PALM | CLOSED_FIST | PINCH

section \<open>Gesture stabilizer (HandTracker, predictWebcam)\<close>

text \<open>
  The two refs of the component: \<open>gestureHistoryRef\<close> (initially the empty array) and
  \<open>lastConfirmedGestureRef\<close> (initially \<open>NONE\<close>).
\<close>

record Stabilizer =
  gestureHistory :: "GestureType list"
  lastConfirmedGesture :: GestureType

definition STABILITY_FRAMES :: nat where
  "STABILITY_FRAMES = 5"

definition initStabilizer :: Stabilizer where
  "initStabilizer = \<lparr> gestureHistory = [], lastConfirmedGesture = NONE \<rparr>"

text \<open>\<open>history.push(rawGesture); if (history.length > STABILITY_FRAMES) history.shift();\<close>\<close>

definition pushHistory :: "GestureType \<Rightarrow> GestureType list \<Rightarrow> GestureType list" where
  "pushHistory raw h =
     (let h' = h @ [raw] in if length h' > STABILITY_FRAMES then tl h' else h')"

text \<open>\<open>history.slice(-3)\<close>: the last three entries, or all of them when there are fewer.\<close>

definition sliceLast3 :: "'a list \<Rightarrow> 'a list" where
  "sliceLast3 h = drop (length h - 3) h"

definition allMatch :: "GestureType \<Rightarrow> GestureType list \<Rightarrow> bool" where
  "allMatch raw h = (length h = STABILITY_FRAMES \<and> list_all (\<lambda>g. g = raw) h)"

definition quickLost :: "GestureType \<Rightarrow> GestureType list \<Rightarrow> bool" where
  "quickLost raw h = (raw = NONE \<and> list_all (\<lambda>g. g = NONE) (sliceLast3 h))"

text \<open>One inference tick of the stabilizer, from the raw gesture of that frame.\<close>

definition stabilize :: "GestureType \<Rightarrow> Stabilizer \<Rightarrow> Stabilizer" where
  "stabilize raw st =
     (let h = pushHistory raw (gestureHistory st) in
      \<lparr> gestureHistory = h,
        lastConfirmedGesture =
          (if allMatch raw h \<or> quickLost raw h then raw else lastConfirmedGesture st) \<rparr>)"

text \<open>A sequence of ticks, and the confirmed gesture reported after each of them.\<close>

fun feed :: "GestureType list \<Rightarrow> Stabilizer \<Rightarrow> Stabilizer" where
  "feed [] st = st"
| "feed (raw # raws) st = feed raws (stabilize raw st)"

fun confirmedTrace :: "GestureType list \<Rightarrow> Stabilizer \<Rightarrow> GestureType list" where
  "confirmedTrace [] st = []"
| "confirmedTrace (raw # raws) st =
     lastConfirmedGesture (stabilize raw st) # confirmedTrace raws (stabilize raw st)"

text \<open>The states the component can be in: the initial refs, updated by any ticks.\<close>

inductive reachable :: "Stabilizer \<Rightarrow> bool" where
  reachable_init: "reachable initStabilizer"
| reachable_step: "reachable st \<Longrightarrow> reachable (stabilize raw st)"

text \<open>Length of the run of \<open>raw\<close> at the end of the history.\<close>

definition trailing :: "GestureType \<Rightarrow> GestureType list \<Rightarrow> nat" where
  "trailing raw h = length (takeWhile (\<lambda>g. g = raw) (rev h))"

text \<open>The sequence of the debounce test: four open palms, one fist, four open palms.\<close>

definition flickerSequence :: "GestureType list" where
  "flickerSequence =
     replicate 4 OPEN_PALM @ [CLOSED_FIST] @ replicate 4 OPEN_PALM"

section \<open>Raw gesture classification (HandTracker, predictWebcam)\<close>

text \<open>One landmark of the hand-landmark result, and the \<open>HandData\<close> of types.ts (its
  fields \<open>x\<close> and \<open>y\<close> are named \<open>hand_x\<close> and \<open>hand_y\<close> here).\<close>

record Landmark =
  lm_x :: num
  lm_y :: num
  lm_z :: num

record HandData =
  gesture :: GestureType
  hand_x :: num
  hand_y :: num
  isDetected :: bool

text \<open>The exceptions the modelled code can raise.\<close>

datatype error = TypeError | RangeError | PlainError | DOMException

definition tips :: "nat list" where
  "tips = [4, 8, 12, 16, 20]"

text \<open>\<open>Math.sqrt(dx*dx + dy*dy + dz*dz)\<close> of the coordinate differences of two landmarks.\<close>

definition distanceTo :: "Landmark \<Rightarrow> Landmark \<Rightarrow> num" where
  "distanceTo p q =
     (let dx = lm_x p - lm_x q;
          dy = lm_y p - lm_y q;
          dz = lm_z p - lm_z q
      in Math_sqrt (dx * dx + dy * dy + dz * dz))"

text \<open>
  The branch for a detected hand. The indices 0, 4, 8, 12, 16 and 20 are read; with
  fewer than 21 landmarks \<open>landmarks[20]\<close> is \<open>undefined\<close> and reading its \<open>x\<close> throws.
  The result is the raw gesture and the mirrored hand position.
\<close>

definition classify :: "Landmark list \<Rightarrow> error + (GestureType \<times> num \<times> num)" where
  "classify landmarks =
     (if length landmarks \<le> 20 then Inl TypeError
      else
        let handX = Fin 1 - lm_x (landmarks ! 0);
            handY = lm_y (landmarks ! 0);
            wrist = landmarks ! 0;
            tipDistances = map (\<lambda>idx. distanceTo (landmarks ! idx) wrist) tips;
            avgDist = foldl (+) (Fin 0) tipDistances / Fin 5;
            pinchDist = distanceTo (landmarks ! 4) (landmarks ! 8);
            rawGesture =
              (if pinchDist < Fin 0.05 then PINCH
               else if avgDist < Fin 0.25 then CLOSED_FIST
               else OPEN_PALM)
        in Inr (rawGesture, handX, handY))"

text \<open>\<open>result.landmarks\<close> holds one landmark list per detected hand; the first is used.\<close>

definition detectFrame ::
  "Landmark list list \<Rightarrow> error + (GestureType \<times> num \<times> num \<times> bool)" where
  "detectFrame hands =
     (case hands of
        [] \<Rightarrow> Inr (NONE, Fin 0.5, Fin 0.5, False)
      | landmarks # others \<Rightarrow>
          (case classify landmarks of
             Inl e \<Rightarrow> Inl e
           | Inr (rawGesture, handX, handY) \<Rightarrow> Inr (rawGesture, handX, handY, True)))"

text \<open>
  One inference result: classification, stabilization and the reported \<open>HandData\<close>.
  (The callback returns before this, leaving both refs as they are, while the detector or
  the video is not ready or the video has not advanced; the model is a processed frame.)
\<close>

definition predictWebcam ::
  "Landmark list list \<Rightarrow> Stabilizer \<Rightarrow> error + (Stabilizer \<times> HandData)" where
  "predictWebcam hands st =
     (case detectFrame hands of
        Inl e \<Rightarrow> Inl e
      | Inr (rawGesture, handX, handY, detected) \<Rightarrow>
          (let st' = stabilize rawGesture st in
           Inr (st', \<lparr> gesture = lastConfirmedGesture st', hand_x = handX, hand_y = handY,
                      isDetected = detected \<rparr>)))"

text \<open>
  The classification as the specification words it, over real coordinates: the
  Euclidean distance of two points, and the three-way decision on the thumb-index
  distance and the mean wrist-to-tip distance.
\<close>

definition euclid :: "real \<times> real \<times> real \<Rightarrow> real \<times> real \<times> real \<Rightarrow> real" where
  "euclid p q =
     (case p of (a, b, c) \<Rightarrow> case q of (d, e, f) \<Rightarrow>
        sqrt ((a - d)\<^sup>2 + (b - e)\<^sup>2 + (c - f)\<^sup>2))"

definition specRawGesture :: "(nat \<Rightarrow> real \<times> real \<times> real) \<Rightarrow> GestureType" where
  "specRawGesture P =
     (if euclid (P 4) (P 8) < 0.05 then PINCH
      else if (euclid (P 0) (P 4) + euclid (P 0) (P 8) + euclid (P 0) (P 12)
               + euclid (P 0) (P 16) + euclid (P 0) (P 20)) / 5 < 0.25 then CLOSED_FIST
      else OPEN_PALM)"

definition finiteLandmark :: "Landmark \<Rightarrow> bool" where
  "finiteLandmark l = (isFinite (lm_x l) \<and> isFinite (lm_y l) \<and> isFinite (lm_z l))"

definition point :: "Landmark \<Rightarrow> real \<times> real \<times> real" where
  "point l = (theReal (lm_x l), theReal (lm_y l), theReal (lm_z l))"

section \<open>Particle integrator (Experience, PhotoParticles)\<close>

text \<open>The \<open>PointCloudData\<close> of types.ts: five typed arrays.\<close>

record PointCloudData =
  positions :: "num list"
  targetTree :: "num list"
  targetCloud :: "num list"
  colors :: "num list"
  sizes :: "num list"

text \<open>
  The physics refs of the component (\<open>swayVector\<close> is a vector of which only \<open>x\<close> and
  \<open>y\<close> are used, \<open>prevHandPosRef\<close> an object with fields \<open>x\<close> and \<open>y\<close>).
\<close>

record Physics =
  transitionProgress :: num
  swayVector_x :: num
  swayVector_y :: num
  vortexAngleRef :: num
  velocityRef :: num
  prevHandPos_x :: num
  prevHandPos_y :: num
  wasDetectedRef :: bool

definition initPhysics :: Physics where
  "initPhysics =
     \<lparr> transitionProgress = Fin 0, swayVector_x = Fin 0, swayVector_y = Fin 0,
       vortexAngleRef = Fin 0, velocityRef = Fin 0,
       prevHandPos_x = Fin 0.5, prevHandPos_y = Fin 0.5, wasDetectedRef = False \<rparr>"

text \<open>
  The working buffers handed to the renderer (the arrays of the three buffer attributes),
  the physics refs, and the number of \<open>Math.random()\<close> calls made so far. The values
  \<open>Math.random()\<close> returns are a parameter \<open>rng\<close> of the model: call number \<open>k\<close>
  returns \<open>rng k\<close>.
\<close>

record Sim =
  physics :: Physics
  posAttr :: "num list"
  colAttr :: "num list"
  sizeAttr :: "num list"
  randomCalls :: nat

text \<open>What one frame reads from outside: the latest hand data, the gesture prop, the
  frame's \<open>delta\<close> and the clock's \<open>elapsedTime\<close>.\<close>

record Frame =
  hand :: HandData
  currentGesture :: GestureType
  delta :: num
  elapsedTime :: num

text \<open>
  \<open>THREE.MathUtils.lerp\<close> and \<open>THREE.MathUtils.smoothstep\<close>, as the three.js library
  defines them: \<open>(1 - t) * x + t * y\<close>, and the clamped cubic \<open>x * x * (3 - 2 * x)\<close>
  of \<open>(x - min) / (max - min)\<close>.
\<close>

definition lerp :: "num \<Rightarrow> num \<Rightarrow> num \<Rightarrow> num" where
  "lerp x y t = (Fin 1 - t) * x + t * y"

definition smoothstep :: "num \<Rightarrow> num \<Rightarrow> num \<Rightarrow> num" where
  "smoothstep x lo hi =
     (if x \<le> lo then Fin 0
      else if hi \<le> x then Fin 1
      else (let x' = (x - lo) / (hi - lo) in x' * x' * (Fin 3 - Fin 2 * x')))"

text \<open>\<open>BufferAttribute.setXYZ\<close> and \<open>setX\<close> on an attribute of item size 3 and 1.\<close>

definition setXYZ :: "num list \<Rightarrow> nat \<Rightarrow> num \<Rightarrow> num \<Rightarrow> num \<Rightarrow> num list" where
  "setXYZ a i vx vy vz = a[i * 3 := vx, i * 3 + 1 := vy, i * 3 + 2 := vz]"

definition setX :: "num list \<Rightarrow> nat \<Rightarrow> num \<Rightarrow> num list" where
  "setX a i v = a[i := v]"

text \<open>Step 2, gesture logic: the transition progress eases towards its target.\<close>

definition gestureLogic :: "Frame \<Rightarrow> num \<Rightarrow> num \<Rightarrow> num" where
  "gestureLogic f safeDelta progress =
     (let targetT = (if currentGesture f = OPEN_PALM then Fin 1 else Fin 0);
          lerpSpeed = (if Fin 0.5 < targetT then Fin 1.5 else Fin 2.5);
          p = lerp progress targetT (safeDelta * lerpSpeed)
      in if p < Fin 0.001 then Fin 0 else p)"

text \<open>Step 3, first half: the target velocity from the hand's motion, and the new
  previous hand position.\<close>

definition handTracking :: "Frame \<Rightarrow> num \<Rightarrow> Physics \<Rightarrow> num \<times> num \<times> num" where
  "handTracking f safeDelta ph =
     (if isDetected (hand f) then
        (if \<not> wasDetectedRef ph then (Fin 0, hand_x (hand f), hand_y (hand f))
         else
           (let dx = hand_x (hand f) - prevHandPos_x ph;
                dy = hand_y (hand f) - prevHandPos_y ph;
                dist = Math_sqrt (dx * dx + dy * dy);
                handSpeed = Math_min (dist / safeDelta) (Fin 5)
            in (handSpeed * Fin 1.5, hand_x (hand f), hand_y (hand f))))
      else (Fin 0, prevHandPos_x ph, prevHandPos_y ph))"

text \<open>Step 3, second half: the velocity eases towards its target (\<open>lerpedVelocity\<close>),
  then the three guards run in the order of the source.\<close>

definition lerpedVelocity :: "num \<Rightarrow> num \<Rightarrow> num \<Rightarrow> num" where
  "lerpedVelocity safeDelta targetVelocity velocity =
     (let velocityLerpFactor = (if targetVelocity < velocity then Fin 4 else Fin 2)
      in lerp velocity targetVelocity (safeDelta * velocityLerpFactor))"

definition velocityGuards :: "num \<Rightarrow> num" where
  "velocityGuards v0 =
     (let v1 = (if v0 < Fin 0.01 then Fin 0 else v0);
          v2 = (if Fin 3 < v1 then Fin 3 else v1)
      in if isNaN v2 then Fin 0 else v2)"

text \<open>Steps 1 to 4 of the frame callback: all the physics refs after the frame.\<close>

definition updatePhysics :: "Frame \<Rightarrow> Physics \<Rightarrow> Physics" where
  "updatePhysics f ph =
     (let safeDelta = Math_min (delta f) (Fin 0.05);
          t = gestureLogic f safeDelta (transitionProgress ph);
          (targetVelocity, prevX, prevY) = handTracking f safeDelta ph;
          velocity = velocityGuards (lerpedVelocity safeDelta targetVelocity (velocityRef ph));
          vortexAngle = vortexAngleRef ph + velocity * safeDelta;
          targetSwayX = (if isDetected (hand f) \<and> Fin 0.1 < t
                         then (hand_x (hand f) - Fin 0.5) * Fin 25 else Fin 0);
          targetSwayY = (if isDetected (hand f) \<and> Fin 0.1 < t
                         then - (hand_y (hand f) - Fin 0.5) * Fin 25 else Fin 0)
      in \<lparr> transitionProgress = t,
           swayVector_x = lerp (swayVector_x ph) targetSwayX (safeDelta * Fin 3),
           swayVector_y = lerp (swayVector_y ph) targetSwayY (safeDelta * Fin 3),
           vortexAngleRef = vortexAngle,
           velocityRef = velocity,
           prevHandPos_x = prevX,
           prevHandPos_y = prevY,
           wasDetectedRef = isDetected (hand f) \<rparr>)"

text \<open>
  Step 5, the loop body, in pieces. \<open>vortexPhysics\<close> is the branch on \<open>smoothT > 0.01\<close>:
  sway, vortex rotation and jitter when scattered, breathing when formed. It takes the
  interpolated position and the number of random calls made, and returns both updated.
\<close>

definition vortexPhysics ::
  "(nat \<Rightarrow> real) \<Rightarrow> Physics \<Rightarrow> num \<Rightarrow> num \<Rightarrow> num \<Rightarrow> num \<times> num \<times> num \<Rightarrow> nat
   \<Rightarrow> (num \<times> num \<times> num) \<times> nat" where
  "vortexPhysics rng ph smoothT time dx p rc =
     (case p of (px0, py0, pz0) \<Rightarrow>
      if Fin 0.01 < smoothT then
        (let px1 = px0 + swayVector_x ph * smoothT;
             py1 = py0 + swayVector_y ph * smoothT;
             (px2, pz2) =
               (if Fin 0.01 < velocityRef ph then
                  (let dist = Math_sqrt (px1 * px1 + pz0 * pz0);
                       angle = vortexAngleRef ph - dist * Fin 0.05;
                       cosA = Math_cos angle;
                       sinA = Math_sin angle;
                       rx = px1 * cosA - pz0 * sinA;
                       rz = px1 * sinA + pz0 * cosA
                   in (px1 + (rx - px1) * smoothT * Fin 0.8,
                       pz0 + (rz - pz0) * smoothT * Fin 0.8))
                else (px1, pz0));
             jitterAmt = velocityRef ph * Fin 0.3 * smoothT
         in if Fin 0.01 < jitterAmt then
              ((px2 + (Fin (rng rc) - Fin 0.5) * jitterAmt,
                py1 + (Fin (rng (rc + 1)) - Fin 0.5) * jitterAmt,
                pz2 + (Fin (rng (rc + 2)) - Fin 0.5) * jitterAmt), rc + 3)
            else ((px2, py1, pz2), rc))
      else
        (let breath = Math_sin (time * Fin 1.5 + dx * Fin 0.5) * Fin 0.05
         in ((px0, py0, pz0 + breath), rc)))"

text \<open>The safety bound of one coordinate: \<open>p\<close> computed, \<open>d\<close> the image target.\<close>

definition safetyBound :: "num \<Rightarrow> num \<Rightarrow> num" where
  "safetyBound p d = (if \<not> isFinite p \<or> Fin 200 < \<bar>p\<bar> then d else p)"

text \<open>The position of particle \<open>i\<close> before the safety bounds, with the random calls made.\<close>

definition computedPosition ::
  "(nat \<Rightarrow> real) \<Rightarrow> PointCloudData \<Rightarrow> Physics \<Rightarrow> num \<Rightarrow> num \<Rightarrow> nat \<Rightarrow> nat
   \<Rightarrow> (num \<times> num \<times> num) \<times> nat" where
  "computedPosition rng data ph smoothT time i rc =
     (let i3 = i * 3;
          dx = rd (targetTree data) i3;
          dy = rd (targetTree data) (i3 + 1);
          dz = rd (targetTree data) (i3 + 2);
          cx = rd (targetCloud data) i3;
          cy = rd (targetCloud data) (i3 + 1);
          cz = rd (targetCloud data) (i3 + 2);
          px = dx + (cx - dx) * smoothT;
          py = dy + (cy - dy) * smoothT;
          pz = dz + (cz - dz) * smoothT
      in vortexPhysics rng ph smoothT time dx (px, py, pz) rc)"

text \<open>Step 6, colour logic: the base colour, boosted on every tenth particle when
  scattered and moving.\<close>

definition colorLogic :: "PointCloudData \<Rightarrow> Physics \<Rightarrow> num \<Rightarrow> nat \<Rightarrow> num \<times> num \<times> num" where
  "colorLogic data ph smoothT i =
     (let i3 = i * 3;
          r = rd (colors data) i3;
          g = rd (colors data) (i3 + 1);
          b = rd (colors data) (i3 + 2);
          isSparkle = (i mod 10 = 0)
      in if isSparkle \<and> Fin 0.1 < smoothT \<and> Fin 0.1 < velocityRef ph then
           (let boost = Math_min (velocityRef ph * smoothT) (Fin 1.2)
            in (r + boost, g + boost, b + boost))
         else (r, g, b))"

definition sizeLogic :: "PointCloudData \<Rightarrow> Physics \<Rightarrow> num \<Rightarrow> nat \<Rightarrow> num" where
  "sizeLogic data ph smoothT i =
     (let s = rd (sizes data) i
      in if Fin 0.1 < smoothT \<and> Fin 0.1 < velocityRef ph
         then s * (Fin 1 + velocityRef ph * Fin 0.5) else s)"

text \<open>One iteration of the particle loop: particle \<open>i\<close> is written to the three buffers.\<close>

definition particleBody ::
  "(nat \<Rightarrow> real) \<Rightarrow> PointCloudData \<Rightarrow> Physics \<Rightarrow> num \<Rightarrow> num \<Rightarrow> nat \<Rightarrow> Sim \<Rightarrow> Sim" where
  "particleBody rng data ph smoothT time i s =
     (let i3 = i * 3;
          dx = rd (targetTree data) i3;
          dy = rd (targetTree data) (i3 + 1);
          dz = rd (targetTree data) (i3 + 2);
          ((px, py, pz), rc) = computedPosition rng data ph smoothT time i (randomCalls s);
          (r, g, b) = colorLogic data ph smoothT i
      in s \<lparr> posAttr := setXYZ (posAttr s) i
                 (safetyBound px dx) (safetyBound py dy) (safetyBound pz dz),
             colAttr := setXYZ (colAttr s) i r g b,
             sizeAttr := setX (sizeAttr s) i (sizeLogic data ph smoothT i),
             randomCalls := rc \<rparr>)"

text \<open>
  \<open>for (let i = 0; i < count; i++)\<close> with a number \<open>count\<close>: the iterations are the
  integers \<open>0 \<le> i < count\<close>, none when \<open>count\<close> is \<open>NaN\<close> or negative. (An infinite
  \<open>count\<close> does not reach a loop of the modelled code.)
\<close>

fun tripCount :: "num \<Rightarrow> nat" where
  "tripCount (Fin c) = nat \<lceil>c\<rceil>"
| "tripCount a = 0"

text \<open>The iterations \<open>0, \<dots>, n - 1\<close> of the particle loop, in this order.\<close>

primrec particleLoop ::
  "(nat \<Rightarrow> real) \<Rightarrow> PointCloudData \<Rightarrow> Physics \<Rightarrow> num \<Rightarrow> num \<Rightarrow> nat \<Rightarrow> Sim \<Rightarrow> Sim" where
  "particleLoop rng data ph smoothT time 0 s = s"
| "particleLoop rng data ph smoothT time (Suc n) s =
     particleBody rng data ph smoothT time n (particleLoop rng data ph smoothT time n s)"

text \<open>
  The frame callback. It returns at once while no point cloud is loaded (or the mesh is
  not mounted): \<open>None\<close> for the data stands for both.
\<close>

definition useFrame :: "(nat \<Rightarrow> real) \<Rightarrow> PointCloudData option \<Rightarrow> Frame \<Rightarrow> Sim \<Rightarrow> Sim" where
  "useFrame rng cloud f s =
     (case cloud of
        None \<Rightarrow> s
      | Some data \<Rightarrow>
          (let ph = updatePhysics f (physics s);
               count = Fin (real (length (positions data))) / Fin 3;
               smoothT = smoothstep (transitionProgress ph) (Fin 0) (Fin 1)
           in particleLoop rng data ph smoothT (elapsedTime f) (tripCount count)
                (s \<lparr> physics := ph \<rparr>)))"

text \<open>A run of frames on one point cloud.\<close>

fun runFrames :: "(nat \<Rightarrow> real) \<Rightarrow> PointCloudData option \<Rightarrow> Frame list \<Rightarrow> Sim \<Rightarrow> Sim" where
  "runFrames rng cloud [] s = s"
| "runFrames rng cloud (f # fs) s = runFrames rng cloud fs (useFrame rng cloud f s)"

text \<open>
  The working buffers are clones of the loaded data, made when it arrives. At that moment
  the component resets the transition progress, the velocity, the vortex angle and the
  sway; the previous hand position and the detection flag keep their values.
  \<open>loadSim\<close> is that step on the state before; \<open>initSim\<close> is the state when the
  first cloud arrives, all refs still at their initial values.
\<close>

definition loadSim :: "PointCloudData \<Rightarrow> Sim \<Rightarrow> Sim" where
  "loadSim data s =
     \<lparr> physics = (physics s) \<lparr> transitionProgress := Fin 0, velocityRef := Fin 0,
                                 vortexAngleRef := Fin 0, swayVector_x := Fin 0,
                                 swayVector_y := Fin 0 \<rparr>,
       posAttr = positions data, colAttr = colors data, sizeAttr = sizes data,
       randomCalls = randomCalls s \<rparr>"

definition initSim :: "PointCloudData \<Rightarrow> Sim" where
  "initSim data =
     \<lparr> physics = initPhysics, posAttr = positions data, colAttr = colors data,
       sizeAttr = sizes data, randomCalls = 0 \<rparr>"

text \<open>
  The invariant of a point cloud (data model): the four coordinate arrays hold three
  numbers per particle, the size array one, and every number is finite.
\<close>

definition validCloud :: "PointCloudData \<Rightarrow> bool" where
  "validCloud d =
     (length (positions d) = 3 * length (sizes d) \<and>
      length (targetTree d) = 3 * length (sizes d) \<and>
      length (targetCloud d) = 3 * length (sizes d) \<and>
      length (colors d) = 3 * length (sizes d) \<and>
      list_all isFinite (positions d) \<and> list_all isFinite (targetTree d) \<and>
      list_all isFinite (targetCloud d) \<and> list_all isFinite (colors d) \<and>
      list_all isFinite (sizes d))"

text \<open>The velocity a frame computes before the three guards run.\<close>

definition frameLerpedVelocity :: "Frame \<Rightarrow> Physics \<Rightarrow> num" where
  "frameLerpedVelocity f ph =
     (let safeDelta = Math_min (delta f) (Fin 0.05)
      in lerpedVelocity safeDelta (fst (handTracking f safeDelta ph)) (velocityRef ph))"

text \<open>
  The progress update as the specification words it, over the reals: \<open>easeProgress\<close>
  with the clamped time step \<open>s\<close>, \<open>specProgress\<close> with the frame's \<open>dt\<close>.
\<close>

definition easeProgress :: "GestureType \<Rightarrow> real \<Rightarrow> real \<Rightarrow> real" where
  "easeProgress g s progress =
     (let targetT = (if g = OPEN_PALM then 1 else 0);
          speed = (if g = OPEN_PALM then 1.5 else 2.5);
          p = progress + (targetT - progress) * s * speed
      in if p < 0.001 then 0 else p)"

definition specProgress :: "GestureType \<Rightarrow> real \<Rightarrow> real \<Rightarrow> real" where
  "specProgress g dt progress = easeProgress g (min dt 0.05) progress"

text \<open>A progress value: a finite number in \<open>[0, 1]\<close> that is 0 or at least 0.001.\<close>

definition unitProgress :: "num \<Rightarrow> bool" where
  "unitProgress a = (\<exists>p. a = Fin p \<and> 0 \<le> p \<and> p \<le> 1 \<and> (p = 0 \<or> 0.001 \<le> p))"

text \<open>Concrete inputs for evaluating the model: a cloud of two particles and some frames.\<close>

definition sampleCloud :: PointCloudData where
  "sampleCloud =
     \<lparr> positions = [Fin 0, Fin 2, Fin 3, Fin 0, Fin 4, Fin 1],
       targetTree = [Fin 0, Fin 2, Fin 3, Fin 0, Fin 4, Fin 1],
       targetCloud = [Fin 10, Fin 0, Fin 5, Fin (-7), Fin 1, Fin 4],
       colors = [Fin 1, Fin 0.5, Fin 0.25, Fin 0, Fin 1, Fin 0.5],
       sizes = [Fin 0.3, Fin 0] \<rparr>"

definition idleFrame :: Frame where
  "idleFrame =
     \<lparr> hand = \<lparr> gesture = NONE, hand_x = Fin 0.5, hand_y = Fin 0.5, isDetected = False \<rparr>,
       currentGesture = NONE, delta = Fin 0.016, elapsedTime = Fin 0 \<rparr>"

definition openFrame :: Frame where
  "openFrame =
     \<lparr> hand = \<lparr> gesture = OPEN_PALM, hand_x = Fin 0.5, hand_y = Fin 0.5, isDetected = True \<rparr>,
       currentGesture = OPEN_PALM, delta = Fin 0.016, elapsedTime = Fin 0 \<rparr>"

definition stalledFrame :: Frame where
  "stalledFrame =
     \<lparr> hand = \<lparr> gesture = OPEN_PALM, hand_x = Fin 0.5, hand_y = Fin 0.5, isDetected = True \<rparr>,
       currentGesture = OPEN_PALM, delta = Fin 0, elapsedTime = Fin 0 \<rparr>"

text \<open>
  The jitter condition does not depend on the particle: in one frame every particle
  makes three random calls, or none does.
\<close>

definition jitterDraws :: "Physics \<Rightarrow> num \<Rightarrow> nat" where
  "jitterDraws ph smoothT =
     (if Fin 0.01 < smoothT \<and> Fin 0.01 < velocityRef ph * Fin 0.3 * smoothT then 3 else 0)"

fun coordinate :: "nat \<Rightarrow> num \<times> num \<times> num \<Rightarrow> num" where
  "coordinate 0 (vx, vy, vz) = vx"
| "coordinate (Suc 0) (vx, vy, vz) = vy"
| "coordinate k (vx, vy, vz) = vz"

text \<open>The position a frame computes for particle \<open>i\<close> before the safety bounds.\<close>

definition frameComputed ::
  "(nat \<Rightarrow> real) \<Rightarrow> PointCloudData \<Rightarrow> Frame \<Rightarrow> Sim \<Rightarrow> nat \<Rightarrow> num \<times> num \<times> num" where
  "frameComputed rng data f s i =
     (let ph = updatePhysics f (physics s);
          smoothT = smoothstep (transitionProgress ph) (Fin 0) (Fin 1)
      in fst (computedPosition rng data ph smoothT (elapsedTime f) i
                (randomCalls s + i * jitterDraws ph smoothT)))"

text \<open>The colour buffer after each frame of a run.\<close>

fun colorTrace ::
  "(nat \<Rightarrow> real) \<Rightarrow> PointCloudData option \<Rightarrow> Frame list \<Rightarrow> Sim \<Rightarrow> num list list" where
  "colorTrace rng cloud [] s = []"
| "colorTrace rng cloud (f # fs) s =
     colAttr (useFrame rng cloud f s) # colorTrace rng cloud fs (useFrame rng cloud f s)"

text \<open>The velocity after each frame of a run.\<close>

fun velocityTrace ::
  "(nat \<Rightarrow> real) \<Rightarrow> PointCloudData option \<Rightarrow> Frame list \<Rightarrow> Sim \<Rightarrow> num list" where
  "velocityTrace rng cloud [] s = []"
| "velocityTrace rng cloud (f # fs) s =
     velocityRef (physics (useFrame rng cloud f s))
       # velocityTrace rng cloud fs (useFrame rng cloud f s)"

text \<open>A cloud whose dispersed target of particle 0 is not a number, and a colour buffer
  left in some other state by earlier frames.\<close>

definition brokenCloud :: PointCloudData where
  "brokenCloud =
     \<lparr> positions = [Fin 0, Fin 2, Fin 3, Fin 0, Fin 4, Fin 1],
       targetTree = [Fin 0, Fin 2, Fin 3, Fin 0, Fin 4, Fin 1],
       targetCloud = [NaN, Fin 0, Fin 5, Fin (-7), Fin 1, Fin 4],
       colors = [Fin 1, Fin 0.5, Fin 0.25, Fin 0, Fin 1, Fin 0.5],
       sizes = [Fin 0.3, Fin 0] \<rparr>"

definition sparkledSim :: Sim where
  "sparkledSim =
     \<lparr> physics = initPhysics, posAttr = positions sampleCloud,
       colAttr = [Fin 2.2, Fin 1.7, Fin 1.45, Fin 0, Fin 1, Fin 0.5],
       sizeAttr = sizes sampleCloud, randomCalls = 12 \<rparr>"

section \<open>Point-cloud builder (utils/geometry, generateParticlesFromImage)\<close>

definition PARTICLE_COUNT :: num where
  "PARTICLE_COUNT = Fin 25000"

text \<open>
  The JavaScript remainder of two numbers (the sign follows the dividend), and the read
  of a \<open>Uint8ClampedArray\<close> at a number: \<open>undefined\<close>, here \<open>NaN\<close>, unless the number
  is an index of the array.
\<close>

fun js_mod :: "num \<Rightarrow> num \<Rightarrow> num" where
  "js_mod (Fin a) (Fin b) =
     (if b = 0 then NaN else Fin (a - b * of_int (if 0 \<le> a / b then \<lfloor>a / b\<rfloor> else \<lceil>a / b\<rceil>)))"
| "js_mod (Fin a) PInf = Fin a"
| "js_mod (Fin a) NInf = Fin a"
| "js_mod a b = NaN"

fun rdPixel :: "nat list \<Rightarrow> num \<Rightarrow> num" where
  "rdPixel a (Fin k) =
     (if 0 \<le> k \<and> k = of_int \<lfloor>k\<rfloor> \<and> nat \<lfloor>k\<rfloor> < length a
      then Fin (real (a ! nat \<lfloor>k\<rfloor>)) else NaN)"
| "rdPixel a k = NaN"

text \<open>
  \<open>new Float32Array(n)\<close> for a number \<open>n\<close>: the length is \<open>n\<close> truncated to an integer
  (0 for \<open>NaN\<close>), and a negative or infinite length or one above \<open>2^53 - 1\<close> throws a
  \<open>RangeError\<close>. The array starts filled with zeros.
\<close>

fun newFloat32Array :: "num \<Rightarrow> error + num list" where
  "newFloat32Array (Fin a) =
     (let k = (if 0 \<le> a then \<lfloor>a\<rfloor> else \<lceil>a\<rceil>)
      in if k < 0 \<or> 2 ^ 53 - 1 < k then Inl RangeError else Inr (replicate (nat k) (Fin 0)))"
| "newFloat32Array NaN = Inr []"
| "newFloat32Array a = Inl RangeError"

text \<open>
  A 2D context as far as the builder uses it: what \<open>getImageData(0, 0, width, height)\<close>
  returns for the two numbers it is given, the bytes of the pixels or \<open>None\<close> when the
  call throws (a tainted canvas, an empty or unbounded rectangle).
\<close>

type_synonym Context2D = "num \<Rightarrow> num \<Rightarrow> nat list option"

text \<open>The galaxy position of one particle: four random calls, in the order of the source.\<close>

definition generateGalaxyShape :: "(nat \<Rightarrow> real) \<Rightarrow> nat \<Rightarrow> (num \<times> num \<times> num) \<times> nat" where
  "generateGalaxyShape rng rc =
     (let angle = Fin (rng rc) * Fin pi * Fin 2;
          radius = Fin (rng (rc + 1)) * Fin 30 + Fin 5;
          spiralOffset = radius * Fin 0.5;
          armOffset = (Math_floor (Fin (rng (rc + 2)) * Fin 3) * (Fin pi * Fin 2)) / Fin 3;
          finalAngle = angle + spiralOffset + armOffset;
          gx = Math_cos finalAngle * radius;
          gz = Math_sin finalAngle * radius;
          gy = (Fin (rng (rc + 3)) - Fin 0.5) * (Fin 10 + radius * Fin 0.2)
      in ((gx, gy, gz), rc + 4))"

text \<open>\<open>validCount\<close>: the pixel count of a loaded image, the configured count otherwise.\<close>

definition validCount :: "num \<Rightarrow> num \<Rightarrow> num" where
  "validCount width height =
     (if Fin 0 < width \<and> Fin 0 < height then width * height else PARTICLE_COUNT)"

definition sanitize :: "num \<Rightarrow> num" where
  "sanitize v = (if \<not> isFinite v then Fin 0 else v)"

text \<open>
  Step 1 of the loop body, image reconstruction: the image target, the colour and the
  size of particle \<open>i\<close>, with the count of random calls. \<open>proceduralShape\<close> is the
  \<open>else\<close> branch, the fallback shape; \<open>imageReconstruction\<close> takes the pixel branch
  when there is pixel data and the width is positive.
\<close>

definition proceduralShape ::
  "(nat \<Rightarrow> real) \<Rightarrow> num \<Rightarrow> nat
   \<Rightarrow> (num \<times> num \<times> num) \<times> (num \<times> num \<times> num) \<times> num \<times> nat" where
  "proceduralShape rng SCALE_Y rc =
     (let theta = Fin (rng rc) * Fin pi * Fin 2;
          h = Fin (rng (rc + 1)) * SCALE_Y - SCALE_Y / Fin 2;
          taper = Math_cos (h * Fin 0.3) * Fin 1.5 + Fin 2;
          dx = Math_cos theta * taper;
          dy = h;
          dz = Math_sin theta * taper;
          r = Fin 1;
          g = Fin 0.7 + Fin (rng (rc + 2)) * Fin 0.3;
          b = Fin 0.8 + Fin (rng (rc + 3)) * Fin 0.2
      in ((dx, dy, dz), (r, g, b), Fin 0.3, rc + 4))"

definition imageReconstruction ::
  "(nat \<Rightarrow> real) \<Rightarrow> num \<Rightarrow> num \<Rightarrow> nat list option \<Rightarrow> nat \<Rightarrow> nat
   \<Rightarrow> (num \<times> num \<times> num) \<times> (num \<times> num \<times> num) \<times> num \<times> nat" where
  "imageReconstruction rng width height imgData i rc =
     (let ASPECT = (if Fin 0 < width then width / height else Fin 0.6);
          SCALE_Y = Fin 18;
          SCALE_X = SCALE_Y * ASPECT
      in case imgData of
           Some pixels \<Rightarrow>
             if Fin 0 < width then
               (let col = js_mod (Fin (real i)) width;
                    row = Math_floor (Fin (real i) / width);
                    pixelI = (row * width + col) * Fin 4;
                    r = rdPixel pixels pixelI / Fin 255;
                    g = rdPixel pixels (pixelI + Fin 1) / Fin 255;
                    b = rdPixel pixels (pixelI + Fin 2) / Fin 255;
                    brightness = (r + g + b) / Fin 3;
                    dx = (col / width - Fin 0.5) * SCALE_X;
                    dy = (Fin 0.5 - row / height) * SCALE_Y;
                    dz = brightness * Fin 3
                in if rdPixel pixels (pixelI + Fin 3) < Fin 50
                   then ((dx, dy, dz), (r, g, b), Fin 0, rc)
                   else ((dx, dy, dz), (r, g, b), Fin (rng rc) * Fin 0.4 + Fin 0.1, rc + 1))
             else proceduralShape rng SCALE_Y rc
         | None \<Rightarrow> proceduralShape rng SCALE_Y rc)"

text \<open>One iteration of the loop of \<open>generateAll\<close>, on the five arrays and the count of
  random calls.\<close>

definition generateBody ::
  "(nat \<Rightarrow> real) \<Rightarrow> num \<Rightarrow> num \<Rightarrow> nat list option \<Rightarrow> nat
   \<Rightarrow> PointCloudData \<times> nat \<Rightarrow> PointCloudData \<times> nat" where
  "generateBody rng width height imgData i st =
     (case st of (d, rc) \<Rightarrow>
      let i3 = i * 3;
          ((dx0, dy0, dz0), (r, g, b), size, rc1) =
             imageReconstruction rng width height imgData i rc;
          dx = sanitize dx0;
          dy = sanitize dy0;
          dz = sanitize dz0;
          tree = (targetTree d)[i3 := dx, i3 + 1 := dy + Fin 2, i3 + 2 := dz];
          cols = (colors d)[i3 := (if isFinite r then r else Fin 1),
                            i3 + 1 := (if isFinite g then g else Fin 1),
                            i3 + 2 := (if isFinite b then b else Fin 1)];
          ((gx0, gy0, gz0), rc2) = generateGalaxyShape rng rc1;
          cloud = (targetCloud d)[i3 := sanitize gx0, i3 + 1 := sanitize gy0,
                                  i3 + 2 := sanitize gz0];
          pos = (positions d)[i3 := rd tree i3, i3 + 1 := rd tree (i3 + 1),
                              i3 + 2 := rd tree (i3 + 2)]
      in (\<lparr> positions = pos, targetTree = tree, targetCloud = cloud, colors = cols,
             sizes = (sizes d)[i := size] \<rparr>, rc2))"

primrec generateLoop ::
  "(nat \<Rightarrow> real) \<Rightarrow> num \<Rightarrow> num \<Rightarrow> nat list option \<Rightarrow> nat
   \<Rightarrow> PointCloudData \<times> nat \<Rightarrow> PointCloudData \<times> nat" where
  "generateLoop rng width height imgData 0 st = st"
| "generateLoop rng width height imgData (Suc n) st =
     generateBody rng width height imgData n (generateLoop rng width height imgData n st)"

text \<open>
  \<open>generateAll(width, height, ctx)\<close>. The five allocations may throw; the pixel data is
  read only with a context and a positive width, and a throwing read leaves it \<open>null\<close>.
  The result is the cloud and the count of random calls made.
\<close>

definition generateAll ::
  "(nat \<Rightarrow> real) \<Rightarrow> nat \<Rightarrow> num \<Rightarrow> num \<Rightarrow> Context2D option \<Rightarrow> error + PointCloudData \<times> nat" where
  "generateAll rng rc width height ctx =
     (let count = validCount width height
      in case (newFloat32Array (count * Fin 3), newFloat32Array count) of
           (Inr a3, Inr a1) \<Rightarrow>
             (let imgData =
                    (case ctx of
                       Some c \<Rightarrow> if Fin 0 < width then c width height else None
                     | None \<Rightarrow> None)
              in Inr (generateLoop rng width height imgData (tripCount count)
                        (\<lparr> positions = a3, targetTree = a3, targetCloud = a3, colors = a3,
                            sizes = a1 \<rparr>, rc)))
         | (Inl e, _) \<Rightarrow> Inl e
         | (_, Inl e) \<Rightarrow> Inl e)"

text \<open>
  What the browser decides when the image loads: its size, whether the canvas gives a
  2D context, whether \<open>drawImage\<close> throws, and the context's pixel reads.
\<close>

record LoadedImage =
  img_width :: nat
  img_height :: nat
  contextAvailable :: bool
  drawImageThrows :: bool
  context2D :: Context2D

text \<open>The state of the returned promise, and the variables of the executor's closure:
  the guard flag, the promise, how often \<open>resolve\<close> was called, the random calls made.\<close>

datatype PromiseState = Pending | Fulfilled PointCloudData | Rejected

record Builder =
  hasResolved :: bool
  promise :: PromiseState
  resolveCalls :: nat
  randomCount :: nat

definition initBuilder :: Builder where
  "initBuilder = \<lparr> hasResolved = False, promise = Pending, resolveCalls = 0, randomCount = 0 \<rparr>"

text \<open>\<open>resolve\<close> of a promise settles it only while it is pending.\<close>

definition resolve :: "PointCloudData \<Rightarrow> Builder \<Rightarrow> Builder" where
  "resolve data b =
     b \<lparr> promise := (case promise b of Pending \<Rightarrow> Fulfilled data | p \<Rightarrow> p),
         resolveCalls := resolveCalls b + 1 \<rparr>"

definition safeResolve :: "PointCloudData \<Rightarrow> Builder \<Rightarrow> Builder" where
  "safeResolve data b = (if hasResolved b then b else resolve data (b \<lparr> hasResolved := True \<rparr>))"

text \<open>
  \<open>safeResolve(generateAll(0, 0))\<close>: the argument is computed first. Were it to throw,
  the exception would leave the handler and the promise would stay as it is.
\<close>

definition resolveFallback :: "(nat \<Rightarrow> real) \<Rightarrow> Builder \<Rightarrow> Builder" where
  "resolveFallback rng b =
     (case generateAll rng (randomCount b) (Fin 0) (Fin 0) None of
        Inl e \<Rightarrow> b
      | Inr (data, rc) \<Rightarrow> safeResolve data (b \<lparr> randomCount := rc \<rparr>))"

text \<open>The grid of \<open>img.onload\<close>: \<open>cols\<close> and \<open>rows\<close> with about \<open>PARTICLE_COUNT\<close> cells
  in the aspect ratio of the image.\<close>

definition gridCols :: "LoadedImage \<Rightarrow> num" where
  "gridCols img =
     (let aspect = Fin (real (img_width img)) / Fin (real (img_height img));
          totalPixels = PARTICLE_COUNT
      in Math_floor (Math_sqrt (totalPixels * aspect)))"

definition gridRows :: "LoadedImage \<Rightarrow> num" where
  "gridRows img = (let totalPixels = PARTICLE_COUNT in Math_floor (totalPixels / gridCols img))"

text \<open>The \<open>try\<close> block of \<open>img.onload\<close>, up to the call of \<open>safeResolve\<close>: a missing
  context throws, then the grid is computed, \<open>drawImage\<close> may throw, and \<open>generateAll\<close>
  runs on the grid.\<close>

definition processImage ::
  "(nat \<Rightarrow> real) \<Rightarrow> LoadedImage \<Rightarrow> nat \<Rightarrow> error + PointCloudData \<times> nat" where
  "processImage rng img rc =
     (if \<not> contextAvailable img then Inl PlainError
      else
        let cols = gridCols img;
            rows = gridRows img
        in if drawImageThrows img then Inl DOMException
           else generateAll rng rc cols rows (Some (context2D img)))"

definition onload :: "(nat \<Rightarrow> real) \<Rightarrow> LoadedImage \<Rightarrow> Builder \<Rightarrow> Builder" where
  "onload rng img b =
     (case processImage rng img (randomCount b) of
        Inr (data, rc) \<Rightarrow> safeResolve data (b \<lparr> randomCount := rc \<rparr>)
      | Inl e \<Rightarrow> resolveFallback rng b)"

definition onerror :: "(nat \<Rightarrow> real) \<Rightarrow> Builder \<Rightarrow> Builder" where
  "onerror rng b = resolveFallback rng b"

definition onTimeout :: "(nat \<Rightarrow> real) \<Rightarrow> Builder \<Rightarrow> Builder" where
  "onTimeout rng b = (if \<not> hasResolved b then resolveFallback rng b else b)"

text \<open>The three completion events, and the callbacks they run, in the order they fire.\<close>

datatype Completion = Load | LoadError | Timeout

fun handle :: "(nat \<Rightarrow> real) \<Rightarrow> LoadedImage \<Rightarrow> Completion \<Rightarrow> Builder \<Rightarrow> Builder" where
  "handle rng img Load b = onload rng img b"
| "handle rng img LoadError b = onerror rng b"
| "handle rng img Timeout b = onTimeout rng b"

fun generateParticlesFromImage ::
  "(nat \<Rightarrow> real) \<Rightarrow> LoadedImage \<Rightarrow> Completion list \<Rightarrow> Builder \<Rightarrow> Builder" where
  "generateParticlesFromImage rng img [] b = b"
| "generateParticlesFromImage rng img (ev # evs) b =
     generateParticlesFromImage rng img evs (handle rng img ev b)"

definition particleCount :: "PointCloudData \<Rightarrow> nat" where
  "particleCount d = length (sizes d)"

fun fulfilled :: "PromiseState \<Rightarrow> PointCloudData option" where
  "fulfilled (Fulfilled d) = Some d"
| "fulfilled p = None"

text \<open>What the loop of \<open>generateAll\<close> keeps true of the arrays it fills.\<close>

definition filled :: "PointCloudData \<Rightarrow> bool" where
  "filled d =
     (positions d = targetTree d \<and> list_all isFinite (targetTree d) \<and>
      list_all isFinite (targetCloud d) \<and> list_all isFinite (colors d) \<and>
      list_all isFinite (sizes d))"

definition sameLengths :: "PointCloudData \<Rightarrow> nat \<Rightarrow> bool" where
  "sameLengths d n =
     (length (positions d) = 3 * n \<and> length (targetTree d) = 3 * n \<and>
      length (targetCloud d) = 3 * n \<and> length (colors d) = 3 * n \<and> length (sizes d) = n)"

text \<open>A complete point cloud: the data-model invariant, at least one particle, and the
  live positions starting at the image target.\<close>

definition completeCloud :: "PointCloudData \<Rightarrow> bool" where
  "completeCloud d = (validCloud d \<and> 1 \<le> particleCount d \<and> positions d = targetTree d)"

text \<open>A square image whose canvas cannot be read (a cross-origin image).\<close>

definition taintedImage :: LoadedImage where
  "taintedImage =
     \<lparr> img_width = 100, img_height = 100, contextAvailable = True, drawImageThrows = False,
       context2D = (\<lambda>sw sh. None) \<rparr>"

text \<open>A random source for evaluating the model: every call returns one half.\<close>

definition halfRandom :: "nat \<Rightarrow> real" where
  "halfRandom k = 1 / 2"

section \<open>Properties of the stabilizer\<close>

lemma gestureHistory_stabilize [simp]:
  "gestureHistory (stabilize raw st) = pushHistory raw (gestureHistory st)"
  by (simp add: stabilize_def Let_def)

lemma trailing_snoc:
  "trailing raw (h @ [g]) = (if g = raw then Suc (trailing raw h) else 0)"
  by (simp add: trailing_def)

lemma takeWhile_append_le:
  "length (takeWhile P xs) \<le> length (takeWhile P (xs @ ys))"
  by (induction xs) auto

lemma trailing_tl_le: "trailing raw (tl h) \<le> trailing raw h"
proof (cases h)
  case Nil
  then show ?thesis by simp
next
  case (Cons x xs)
  have "length (takeWhile (\<lambda>g. g = raw) (rev xs))
        \<le> length (takeWhile (\<lambda>g. g = raw) (rev xs @ [x]))"
    by (rule takeWhile_append_le)
  with Cons show ?thesis by (simp add: trailing_def)
qed

lemma trailing_push_same: "trailing raw (pushHistory raw h) \<le> Suc (trailing raw h)"
proof -
  have "trailing raw (tl (h @ [raw])) \<le> trailing raw (h @ [raw])"
    by (rule trailing_tl_le)
  then show ?thesis
    by (simp add: pushHistory_def Let_def trailing_snoc)
qed

lemma trailing_push_other: "g \<noteq> raw \<Longrightarrow> trailing raw (pushHistory g h) = 0"
proof -
  assume ne: "g \<noteq> raw"
  have "trailing raw (tl (h @ [g])) \<le> trailing raw (h @ [g])"
    by (rule trailing_tl_le)
  with ne show ?thesis
    by (simp add: pushHistory_def Let_def trailing_snoc)
qed

lemma trailing_all: "list_all (\<lambda>g. g = raw) h \<Longrightarrow> trailing raw h = length h"
proof -
  assume "list_all (\<lambda>g. g = raw) h"
  then have "takeWhile (\<lambda>g. g = raw) (rev h) = rev h"
    by (simp add: list_all_iff)
  then show ?thesis
    unfolding trailing_def by (simp only: length_rev)
qed

lemma allMatch_trailing: "allMatch raw h \<Longrightarrow> trailing raw h = 5"
  by (simp add: allMatch_def STABILITY_FRAMES_def trailing_all)

lemma trailing_zero_iff: "trailing raw h = 0 \<longleftrightarrow> (h = [] \<or> last h \<noteq> raw)"
  by (cases h rule: rev_cases) (simp_all add: trailing_def)

text \<open>A raw gesture other than \<open>NONE\<close> is not confirmed while its run is shorter than 4.\<close>

lemma stabilize_keeps:
  assumes "raw \<noteq> NONE" and "trailing raw (gestureHistory st) < 4"
  shows "lastConfirmedGesture (stabilize raw st) = lastConfirmedGesture st"
proof -
  have "trailing raw (pushHistory raw (gestureHistory st)) < 5"
    using trailing_push_same [of raw "gestureHistory st"] assms(2) by simp
  then have "\<not> allMatch raw (pushHistory raw (gestureHistory st))"
    using allMatch_trailing by fastforce
  moreover have "\<not> quickLost raw (pushHistory raw (gestureHistory st))"
    using assms(1) by (simp add: quickLost_def)
  ultimately show ?thesis by (simp add: stabilize_def Let_def)
qed

lemma stabilize_same:
  "lastConfirmedGesture st = raw \<Longrightarrow> lastConfirmedGesture (stabilize raw st) = raw"
  by (simp add: stabilize_def Let_def)

lemma stabilize_changes:
  assumes "lastConfirmedGesture (stabilize raw st) \<noteq> lastConfirmedGesture st"
  shows "allMatch raw (gestureHistory (stabilize raw st))
         \<or> quickLost raw (gestureHistory (stabilize raw st))"
  using assms by (auto simp: stabilize_def Let_def split: if_splits)

text \<open>With at most five entries stored, pushing keeps the last five of the extended array.\<close>

lemma pushHistory_drop:
  "length h \<le> 5 \<Longrightarrow> pushHistory raw h = drop (length h + 1 - 5) (h @ [raw])"
  by (cases h) (auto simp: pushHistory_def Let_def STABILITY_FRAMES_def drop_Cons')

lemma length_pushHistory: "length h \<le> 5 \<Longrightarrow> length (pushHistory raw h) \<le> 5"
  by (simp add: pushHistory_def Let_def STABILITY_FRAMES_def)

lemma feed_history_drop:
  "length (gestureHistory st) \<le> 5 \<Longrightarrow>
   gestureHistory (feed raws st) =
     drop (length (gestureHistory st) + length raws - 5) (gestureHistory st @ raws)"
proof (induction raws arbitrary: st)
  case Nil
  then show ?case by simp
next
  case (Cons raw raws)
  let ?h = "gestureHistory st"
  have len: "length (pushHistory raw ?h) \<le> 5"
    using Cons.prems by (rule length_pushHistory)
  have IH: "gestureHistory (feed (raw # raws) st) =
        drop (length (pushHistory raw ?h) + length raws - 5) (pushHistory raw ?h @ raws)"
    using Cons.IH [of "stabilize raw st"] len by simp
  show ?case
  proof (cases "length ?h = 5")
    case True
    then obtain x xs where h: "?h = x # xs" and xs: "length xs = 4"
      by (cases ?h) auto
    have "pushHistory raw ?h = xs @ [raw]"
      by (simp add: h xs pushHistory_def Let_def STABILITY_FRAMES_def)
    then show ?thesis
      using IH by (simp add: h xs)
  next
    case False
    with Cons.prems have "length ?h < 5" by simp
    then have "pushHistory raw ?h = ?h @ [raw]"
      by (simp add: pushHistory_def Let_def STABILITY_FRAMES_def)
    then show ?thesis
      using IH by simp
  qed
qed

lemma feed_snoc: "feed (raws @ [raw]) st = stabilize raw (feed raws st)"
  by (induction raws arbitrary: st) simp_all

lemma five_confirm:
  assumes "length (gestureHistory st) \<le> 5"
  shows "lastConfirmedGesture (feed (replicate 5 raw) st) = raw"
proof -
  have "gestureHistory (feed (replicate 5 raw) st) = replicate 5 raw"
    using assms by (simp add: feed_history_drop)
  moreover have "feed (replicate 5 raw) st = stabilize raw (feed (replicate 4 raw) st)"
    using feed_snoc [of "replicate 4 raw" raw st]
    by (simp add: replicate_append_same numeral_eq_Suc)
  ultimately have "allMatch raw (pushHistory raw (gestureHistory (feed (replicate 4 raw) st)))"
    by (simp add: allMatch_def STABILITY_FRAMES_def list_all_iff)
  then show ?thesis
    using \<open>feed (replicate 5 raw) st = stabilize raw (feed (replicate 4 raw) st)\<close>
    by (simp add: stabilize_def Let_def)
qed

text \<open>Reachable states hold at most five entries, and confirm nothing but \<open>NONE\<close> before
  the history is full.\<close>

lemma reachable_inv:
  "reachable st \<Longrightarrow>
   length (gestureHistory st) \<le> 5 \<and>
   (length (gestureHistory st) < 5 \<longrightarrow> lastConfirmedGesture st = NONE)"
proof (induction rule: reachable.induct)
  case reachable_init
  then show ?case by (simp add: initStabilizer_def)
next
  case (reachable_step st raw)
  then show ?case
    by (auto simp: stabilize_def Let_def pushHistory_def allMatch_def quickLost_def
        STABILITY_FRAMES_def)
qed


lemma confirmedTrace_append:
  "confirmedTrace (xs @ ys) st = confirmedTrace xs st @ confirmedTrace ys (feed xs st)"
  by (induction xs arbitrary: st) simp_all

lemma feed_append: "feed (xs @ ys) st = feed ys (feed xs st)"
  by (induction xs arbitrary: st) simp_all

text \<open>While a run of a gesture other than \<open>NONE\<close> stays below five, nothing is confirmed.\<close>

lemma quiet_run:
  assumes "raw \<noteq> NONE"
  shows "trailing raw (gestureHistory st) + k \<le> 4 \<Longrightarrow>
     list_all (\<lambda>c. c = lastConfirmedGesture st) (confirmedTrace (replicate k raw) st) \<and>
     lastConfirmedGesture (feed (replicate k raw) st) = lastConfirmedGesture st"
proof (induction k arbitrary: st)
  case 0
  then show ?case by simp
next
  case (Suc k)
  have keep: "lastConfirmedGesture (stabilize raw st) = lastConfirmedGesture st"
    using assms Suc.prems by (intro stabilize_keeps) simp_all
  have "trailing raw (gestureHistory (stabilize raw st)) + k \<le> 4"
    using trailing_push_same [of raw "gestureHistory st"] Suc.prems by simp
  from Suc.IH [OF this] keep show ?case by simp
qed

text \<open>Frames of the gesture that is already confirmed leave it confirmed.\<close>

lemma same_run:
  "lastConfirmedGesture st = raw \<Longrightarrow>
   list_all (\<lambda>c. c = raw) (confirmedTrace (replicate k raw) st) \<and>
   lastConfirmedGesture (feed (replicate k raw) st) = raw"
proof (induction k arbitrary: st)
  case 0
  then show ?case by simp
next
  case (Suc k)
  from Suc.IH [of "stabilize raw st"] stabilize_same [OF Suc.prems]
  show ?case by simp
qed

lemma trailing_feed_other:
  assumes "g \<noteq> raw"
  shows "trailing raw (gestureHistory (feed (replicate (Suc k) g) st)) = 0"
proof -
  have "feed (replicate (Suc k) g) st = stabilize g (feed (replicate k g) st)"
    using feed_snoc [of "replicate k g" g st] by (simp add: replicate_append_same)
  then show ?thesis
    using assms by (simp add: trailing_push_other)
qed

lemma flicker_unchanged:
  assumes start: "trailing OPEN_PALM (gestureHistory st) = 0 \<or> lastConfirmedGesture st = OPEN_PALM"
  shows "list_all (\<lambda>c. c = lastConfirmedGesture st) (confirmedTrace flickerSequence st)"
proof -
  let ?c = "lastConfirmedGesture st"
  let ?s4 = "feed (replicate 4 OPEN_PALM) st"
  let ?s5 = "stabilize CLOSED_FIST ?s4"
  have first: "list_all (\<lambda>c. c = ?c) (confirmedTrace (replicate 4 OPEN_PALM) st)
               \<and> lastConfirmedGesture ?s4 = ?c"
  proof (cases "lastConfirmedGesture st = OPEN_PALM")
    case True
    with same_run [of st OPEN_PALM 4] show ?thesis by simp
  next
    case False
    with start have "trailing OPEN_PALM (gestureHistory st) + 4 \<le> 4" by simp
    then show ?thesis by (intro quiet_run) simp_all
  qed
  have "trailing CLOSED_FIST (gestureHistory ?s4) = 0"
    using trailing_feed_other [of OPEN_PALM CLOSED_FIST 3 st] by (simp add: numeral_eq_Suc)
  then have fist: "lastConfirmedGesture ?s5 = lastConfirmedGesture ?s4"
    by (intro stabilize_keeps) simp_all
  have "trailing OPEN_PALM (gestureHistory ?s5) + 4 \<le> 4"
    by (simp add: trailing_push_other)
  then have "list_all (\<lambda>c. c = lastConfirmedGesture ?s5)
               (confirmedTrace (replicate 4 OPEN_PALM) ?s5)"
    using quiet_run [of OPEN_PALM ?s5 4] by simp
  with first fist show ?thesis
    by (simp add: flickerSequence_def confirmedTrace_append)
qed

text \<open>
  C3 (amended). The stabilizer starts in a state whose history is empty or ends with an
  entry other than \<open>OPEN_PALM\<close>, or whose confirmed gesture is already \<open>OPEN_PALM\<close>.
  Then the raw sequence of four \<open>OPEN_PALM\<close>, one \<open>CLOSED_FIST\<close> and four
  \<open>OPEN_PALM\<close> leaves the confirmed gesture as it was after each of the nine updates.
  Five \<open>OPEN_PALM\<close> frames in a row set the confirmed gesture to \<open>OPEN_PALM\<close> (the
  history holding at most five entries, as it always does). In general an update changes
  the confirmed gesture only when the history holds five entries all equal to the raw
  value, or when the raw value is \<open>NONE\<close> and the last three entries of the history
  (all of them when there are fewer) are \<open>NONE\<close>.
\<close>

theorem debounce_flicker:
  "((gestureHistory st = [] \<or> last (gestureHistory st) \<noteq> OPEN_PALM
      \<or> lastConfirmedGesture st = OPEN_PALM) \<longrightarrow>
      list_all (\<lambda>c. c = lastConfirmedGesture st)
        (confirmedTrace [OPEN_PALM, OPEN_PALM, OPEN_PALM, OPEN_PALM, CLOSED_FIST,
                         OPEN_PALM, OPEN_PALM, OPEN_PALM, OPEN_PALM] st))
   \<and> (length (gestureHistory st) \<le> STABILITY_FRAMES \<longrightarrow>
      lastConfirmedGesture
        (feed [OPEN_PALM, OPEN_PALM, OPEN_PALM, OPEN_PALM, OPEN_PALM] st) = OPEN_PALM)
   \<and> (lastConfirmedGesture (stabilize raw st) \<noteq> lastConfirmedGesture st \<longrightarrow>
      (length (gestureHistory (stabilize raw st)) = 5
         \<and> (\<forall>g \<in> set (gestureHistory (stabilize raw st)). g = raw))
      \<or> (raw = NONE
         \<and> (\<forall>g \<in> set (drop (length (gestureHistory (stabilize raw st)) - 3)
                          (gestureHistory (stabilize raw st))). g = NONE)))"
proof (intro conjI impI)
  assume "gestureHistory st = [] \<or> last (gestureHistory st) \<noteq> OPEN_PALM
      \<or> lastConfirmedGesture st = OPEN_PALM"
  then have "trailing OPEN_PALM (gestureHistory st) = 0 \<or> lastConfirmedGesture st = OPEN_PALM"
    by (auto simp: trailing_zero_iff)
  then have "list_all (\<lambda>c. c = lastConfirmedGesture st) (confirmedTrace flickerSequence st)"
    by (rule flicker_unchanged)
  moreover have "flickerSequence = [OPEN_PALM, OPEN_PALM, OPEN_PALM, OPEN_PALM, CLOSED_FIST,
                         OPEN_PALM, OPEN_PALM, OPEN_PALM, OPEN_PALM]"
    by (simp add: flickerSequence_def numeral_eq_Suc)
  ultimately show "list_all (\<lambda>c. c = lastConfirmedGesture st)
        (confirmedTrace [OPEN_PALM, OPEN_PALM, OPEN_PALM, OPEN_PALM, CLOSED_FIST,
                         OPEN_PALM, OPEN_PALM, OPEN_PALM, OPEN_PALM] st)"
    by simp
next
  assume "length (gestureHistory st) \<le> STABILITY_FRAMES"
  then have "lastConfirmedGesture (feed (replicate 5 OPEN_PALM) st) = OPEN_PALM"
    by (intro five_confirm) (simp add: STABILITY_FRAMES_def)
  moreover have "replicate 5 OPEN_PALM
                 = [OPEN_PALM, OPEN_PALM, OPEN_PALM, OPEN_PALM, OPEN_PALM]"
    by (simp add: numeral_eq_Suc)
  ultimately show "lastConfirmedGesture
        (feed [OPEN_PALM, OPEN_PALM, OPEN_PALM, OPEN_PALM, OPEN_PALM] st) = OPEN_PALM"
    by simp
next
  assume "lastConfirmedGesture (stabilize raw st) \<noteq> lastConfirmedGesture st"
  then have "allMatch raw (gestureHistory (stabilize raw st))
         \<or> quickLost raw (gestureHistory (stabilize raw st))"
    by (rule stabilize_changes)
  then show "(length (gestureHistory (stabilize raw st)) = 5
         \<and> (\<forall>g \<in> set (gestureHistory (stabilize raw st)). g = raw))
      \<or> (raw = NONE
         \<and> (\<forall>g \<in> set (drop (length (gestureHistory (stabilize raw st)) - 3)
                          (gestureHistory (stabilize raw st))). g = NONE))"
    by (simp add: allMatch_def quickLost_def sliceLast3_def STABILITY_FRAMES_def list_all_iff)
qed

text \<open>
  The theorem at concrete states: from the initial state, and from the state reached by
  five fists, the flicker sequence changes nothing; five open palms are confirmed; and
  the one change in two \<open>NONE\<close> frames after a confirmed fist is a fast exit.
\<close>

theorem debounce_flicker_witness:
  "confirmedTrace [OPEN_PALM, OPEN_PALM, OPEN_PALM, OPEN_PALM, CLOSED_FIST,
                   OPEN_PALM, OPEN_PALM, OPEN_PALM, OPEN_PALM] initStabilizer
     = [NONE, NONE, NONE, NONE, NONE, NONE, NONE, NONE, NONE]
   \<and> lastConfirmedGesture
       (feed [OPEN_PALM, OPEN_PALM, OPEN_PALM, OPEN_PALM, OPEN_PALM] initStabilizer)
     = OPEN_PALM
   \<and> lastConfirmedGesture (stabilize NONE initStabilizer) = NONE
   \<and> gestureHistory (stabilize NONE initStabilizer) = [NONE]"
  using debounce_flicker [of initStabilizer NONE]
  by (simp add: initStabilizer_def stabilize_def pushHistory_def allMatch_def quickLost_def
      sliceLast3_def STABILITY_FRAMES_def Let_def)

text \<open>
  The claim as written fails from a reachable state: after one \<open>OPEN_PALM\<close> frame the
  confirmed gesture is still \<open>NONE\<close>, and the fourth \<open>OPEN_PALM\<close> of the sequence
  completes five agreeing entries and confirms \<open>OPEN_PALM\<close>.
\<close>

theorem debounce_flicker_counterexample:
  "lastConfirmedGesture (stabilize OPEN_PALM initStabilizer) = NONE
   \<and> confirmedTrace [OPEN_PALM, OPEN_PALM, OPEN_PALM, OPEN_PALM, CLOSED_FIST,
                     OPEN_PALM, OPEN_PALM, OPEN_PALM, OPEN_PALM]
        (stabilize OPEN_PALM initStabilizer)
     = [NONE, NONE, NONE, OPEN_PALM, OPEN_PALM, OPEN_PALM, OPEN_PALM, OPEN_PALM, OPEN_PALM]"
  by (simp add: initStabilizer_def stabilize_def pushHistory_def allMatch_def quickLost_def
      sliceLast3_def STABILITY_FRAMES_def Let_def)

text \<open>What the fast-exit rule sees after a frame: the last two stored entries and the
  new one.\<close>

lemma sliceLast3_pushHistory:
  "sliceLast3 (pushHistory raw h) = drop (length h - 2) h @ [raw]"
proof (cases "length h < 5")
  case True
  then show ?thesis
    by (simp add: pushHistory_def sliceLast3_def STABILITY_FRAMES_def Let_def)
next
  case False
  then obtain x xs where h: "h = x # xs" and xs: "4 \<le> length xs"
    by (cases h) auto
  have push: "pushHistory raw h = xs @ [raw]"
    using xs by (simp add: h pushHistory_def STABILITY_FRAMES_def Let_def)
  have "drop (length h - 2) h = drop (length xs - 2) xs"
    using xs by (simp add: h drop_Cons' numeral_2_eq_2)
  moreover have "sliceLast3 (xs @ [raw]) = drop (length xs - 2) xs @ [raw]"
    using xs by (simp add: sliceLast3_def)
  ultimately show ?thesis
    by (simp only: push)
qed

lemma quickLost_pushHistory:
  "quickLost NONE (pushHistory NONE h)
     = list_all (\<lambda>g. g = NONE) (drop (length h - 2) h)"
  by (simp add: quickLost_def sliceLast3_pushHistory)

lemma allMatch_quickLost: "allMatch NONE h \<Longrightarrow> quickLost NONE h"
  using set_drop_subset [of "length h - 3" h]
  by (auto simp: allMatch_def quickLost_def sliceLast3_def list_all_iff)

text \<open>A \<open>NONE\<close> frame confirms \<open>NONE\<close> exactly through the fast exit.\<close>

lemma stabilize_NONE:
  "lastConfirmedGesture (stabilize NONE st)
     = (if list_all (\<lambda>g. g = NONE)
             (drop (length (gestureHistory st) - 2) (gestureHistory st))
        then NONE else lastConfirmedGesture st)"
  using allMatch_quickLost [of "pushHistory NONE (gestureHistory st)"]
  by (auto simp: stabilize_def Let_def quickLost_pushHistory)

text \<open>
  C10. In every state of the stabilizer, whatever gesture is confirmed, whose history
  holds fewer than three entries that are all \<open>NONE\<close> (the empty history of a session
  start among them), a single frame with raw gesture \<open>NONE\<close> satisfies the fast-exit
  rule and sets the confirmed gesture to \<open>NONE\<close>. The rule looks at the last
  \<open>min 3 (length h)\<close> entries of the history \<open>h\<close> it is given, so after the frame at the
  new entry and the last two stored ones (all stored ones when there are fewer than
  three): in every state a \<open>NONE\<close> frame leaves the confirmed gesture \<open>NONE\<close> when
  those stored entries are all \<open>NONE\<close> and unchanged otherwise. With an entry other than
  \<open>NONE\<close> in a history of fewer than three entries the rule is therefore not satisfied;
  in a reachable state the confirmed gesture is then \<open>NONE\<close> all the same, since nothing
  else has been confirmed yet.
\<close>

theorem quickLost_short_history:
  "(length (gestureHistory st) < 3 \<and> list_all (\<lambda>g. g = NONE) (gestureHistory st) \<longrightarrow>
      quickLost NONE (gestureHistory (stabilize NONE st))
      \<and> lastConfirmedGesture (stabilize NONE st) = NONE)
   \<and> lastConfirmedGesture (stabilize NONE st)
       = (if list_all (\<lambda>g. g = NONE)
               (drop (length (gestureHistory st) - 2) (gestureHistory st))
          then NONE else lastConfirmedGesture st)
   \<and> length (sliceLast3 h) = min 3 (length h)
   \<and> quickLost raw h = (raw = NONE \<and> list_all (\<lambda>g. g = NONE) (drop (length h - min 3 (length h)) h))
   \<and> (length h < 3 \<longrightarrow> quickLost NONE (pushHistory NONE h) = list_all (\<lambda>g. g = NONE) h)
   \<and> (reachable st \<and> length (gestureHistory st) < 3 \<longrightarrow>
        lastConfirmedGesture (stabilize NONE st) = NONE)"
proof (intro conjI impI)
  assume a: "length (gestureHistory st) < 3 \<and> list_all (\<lambda>g. g = NONE) (gestureHistory st)"
  then have short: "drop (length (gestureHistory st) - 2) (gestureHistory st) = gestureHistory st"
    by simp
  with a show "quickLost NONE (gestureHistory (stabilize NONE st))"
    by (simp add: quickLost_pushHistory)
  from a short show "lastConfirmedGesture (stabilize NONE st) = NONE"
    by (simp add: stabilize_NONE)
next
  show "lastConfirmedGesture (stabilize NONE st)
       = (if list_all (\<lambda>g. g = NONE)
               (drop (length (gestureHistory st) - 2) (gestureHistory st))
          then NONE else lastConfirmedGesture st)"
    by (rule stabilize_NONE)
next
  show "length (sliceLast3 h) = min 3 (length h)"
    by (simp add: sliceLast3_def)
next
  have "length h - min 3 (length h) = length h - 3" by simp
  then show "quickLost raw h
      = (raw = NONE \<and> list_all (\<lambda>g. g = NONE) (drop (length h - min 3 (length h)) h))"
    by (simp only: quickLost_def sliceLast3_def)
next
  assume "length h < 3"
  then show "quickLost NONE (pushHistory NONE h) = list_all (\<lambda>g. g = NONE) h"
    by (simp add: quickLost_pushHistory)
next
  assume a: "reachable st \<and> length (gestureHistory st) < 3"
  then have "lastConfirmedGesture st = NONE"
    using reachable_inv [of st] by simp
  then show "lastConfirmedGesture (stabilize NONE st) = NONE"
    by (rule stabilize_same)
qed

text \<open>
  The theorem at concrete states. At session start one \<open>NONE\<close> frame satisfies the rule.
  From a state with two stored \<open>NONE\<close> entries and a fist confirmed, one \<open>NONE\<close> frame
  confirms \<open>NONE\<close>. After five fists and two \<open>NONE\<close> frames the fist is still
  confirmed, and the third \<open>NONE\<close> frame confirms \<open>NONE\<close>. After one open palm the rule
  is not satisfied by a \<open>NONE\<close> frame, and the confirmed gesture is \<open>NONE\<close> as before.
\<close>

theorem quickLost_short_history_witness:
  "quickLost NONE (gestureHistory (stabilize NONE initStabilizer))
   \<and> lastConfirmedGesture (stabilize NONE initStabilizer) = NONE
   \<and> lastConfirmedGesture
       (stabilize NONE \<lparr> gestureHistory = [NONE, NONE], lastConfirmedGesture = CLOSED_FIST \<rparr>)
     = NONE
   \<and> lastConfirmedGesture
       (feed [CLOSED_FIST, CLOSED_FIST, CLOSED_FIST, CLOSED_FIST, CLOSED_FIST, NONE, NONE]
          initStabilizer)
     = CLOSED_FIST
   \<and> lastConfirmedGesture
       (stabilize NONE
          (feed [CLOSED_FIST, CLOSED_FIST, CLOSED_FIST, CLOSED_FIST, CLOSED_FIST, NONE, NONE]
             initStabilizer))
     = NONE
   \<and> reachable (stabilize OPEN_PALM initStabilizer)
   \<and> \<not> quickLost NONE (gestureHistory (stabilize NONE (stabilize OPEN_PALM initStabilizer)))
   \<and> lastConfirmedGesture (stabilize NONE (stabilize OPEN_PALM initStabilizer)) = NONE"
proof -
  let ?two = "\<lparr> gestureHistory = [NONE, NONE], lastConfirmedGesture = CLOSED_FIST \<rparr>"
  let ?fists = "feed [CLOSED_FIST, CLOSED_FIST, CLOSED_FIST, CLOSED_FIST, CLOSED_FIST, NONE, NONE]
                  initStabilizer"
  let ?palm = "stabilize OPEN_PALM initStabilizer"
  have start: "length (gestureHistory initStabilizer) < 3
               \<and> list_all (\<lambda>g. g = NONE) (gestureHistory initStabilizer)"
    by (simp add: initStabilizer_def)
  have c1: "quickLost NONE (gestureHistory (stabilize NONE initStabilizer))
            \<and> lastConfirmedGesture (stabilize NONE initStabilizer) = NONE"
    using quickLost_short_history [of initStabilizer, THEN conjunct1] start by (rule mp)
  have two: "length (gestureHistory ?two) < 3 \<and> list_all (\<lambda>g. g = NONE) (gestureHistory ?two)"
    by simp
  have c2: "quickLost NONE (gestureHistory (stabilize NONE ?two))
            \<and> lastConfirmedGesture (stabilize NONE ?two) = NONE"
    using quickLost_short_history [of ?two, THEN conjunct1] two by (rule mp)
  have fh: "gestureHistory ?fists = [CLOSED_FIST, CLOSED_FIST, CLOSED_FIST, NONE, NONE]"
    by (simp add: initStabilizer_def pushHistory_def STABILITY_FRAMES_def Let_def)
  have fc: "lastConfirmedGesture ?fists = CLOSED_FIST"
    by (simp add: initStabilizer_def stabilize_def pushHistory_def allMatch_def
        quickLost_def sliceLast3_def STABILITY_FRAMES_def Let_def)
  have "lastConfirmedGesture (stabilize NONE ?fists)
        = (if list_all (\<lambda>g. g = NONE)
                (drop (length (gestureHistory ?fists) - 2) (gestureHistory ?fists))
           then NONE else lastConfirmedGesture ?fists)"
    using quickLost_short_history [of ?fists] by (rule conjunct2 [THEN conjunct1])
  then have c3: "lastConfirmedGesture (stabilize NONE ?fists) = NONE"
    unfolding fh by simp
  have palm: "reachable ?palm"
    by (intro reachable_step reachable_init)
  have ph: "gestureHistory ?palm = [OPEN_PALM]"
    by (simp add: initStabilizer_def pushHistory_def STABILITY_FRAMES_def Let_def)
  have "quickLost NONE (pushHistory NONE [OPEN_PALM]) = list_all (\<lambda>g. g = NONE) [OPEN_PALM]"
    using quickLost_short_history [of ?palm "[OPEN_PALM]"] by simp
  moreover have "pushHistory OPEN_PALM (gestureHistory initStabilizer) = [OPEN_PALM]"
    by (simp add: initStabilizer_def pushHistory_def STABILITY_FRAMES_def Let_def)
  ultimately have c4: "\<not> quickLost NONE (gestureHistory (stabilize NONE ?palm))"
    by (simp only: gestureHistory_stabilize) simp
  have "reachable ?palm \<and> length (gestureHistory ?palm) < 3"
    using palm by (simp only: ph) simp
  with quickLost_short_history [of ?palm]
  have c5: "lastConfirmedGesture (stabilize NONE ?palm) = NONE"
    by blast
  from c1 c2 fc c3 palm c4 c5 show ?thesis by blast
qed

section \<open>Properties of the raw classification\<close>

lemma isFinite_Fin: "isFinite a \<Longrightarrow> a = Fin (theReal a)"
  by (cases a) simp_all

lemma distanceTo_finite:
  assumes "finiteLandmark p" and "finiteLandmark q"
  shows "distanceTo p q = Fin (euclid (point p) (point q))"
proof -
  obtain a b c where p: "lm_x p = Fin a" "lm_y p = Fin b" "lm_z p = Fin c"
    using assms(1) isFinite_Fin unfolding finiteLandmark_def by blast
  obtain d e f where q: "lm_x q = Fin d" "lm_y q = Fin e" "lm_z q = Fin f"
    using assms(2) isFinite_Fin unfolding finiteLandmark_def by blast
  have "\<not> (a - d) * (a - d) + (b - e) * (b - e) + (c - f) * (c - f) < 0"
    by (simp add: not_less add_nonneg_nonneg)
  then show ?thesis
    by (simp add: distanceTo_def p q minus_num_def point_def euclid_def power2_eq_square)
qed

lemma euclid_sym: "euclid p q = euclid q p"
  by (cases p, cases q) (simp add: euclid_def power2_commute)

text \<open>
  C8. For a frame whose first detected hand has 21 landmarks with finite coordinates, the
  raw gesture is the one the specification describes (\<open>PINCH\<close> when thumb tip and index
  tip are closer than 0.05, otherwise \<open>CLOSED_FIST\<close> when the mean distance of the
  five tips from the wrist is below 0.25, otherwise \<open>OPEN_PALM\<close>), the reported position
  is \<open>(1 - landmark[0].x, landmark[0].y)\<close>, and the hand counts as detected.
\<close>

theorem classify_refines_spec:
  assumes "length landmarks = 21" and "list_all finiteLandmark landmarks"
  shows "detectFrame (landmarks # others) =
           Inr (specRawGesture (\<lambda>i. point (landmarks ! i)),
                Fin (1 - theReal (lm_x (landmarks ! 0))),
                lm_y (landmarks ! 0),
                True)"
proof -
  have fin: "finiteLandmark (landmarks ! i)" if "i < 21" for i
    using assms that by (simp add: list_all_length)
  have d: "distanceTo (landmarks ! i) (landmarks ! j)
           = Fin (euclid (point (landmarks ! i)) (point (landmarks ! j)))"
    if "i < 21" and "j < 21" for i j
    using that by (intro distanceTo_finite fin)
  have x0: "lm_x (landmarks ! 0) = Fin (theReal (lm_x (landmarks ! 0)))"
    using fin [of 0] by (intro isFinite_Fin) (simp add: finiteLandmark_def)
  have hx: "Fin 1 - lm_x (landmarks ! 0) = Fin (1 - theReal (lm_x (landmarks ! 0)))"
    by (subst x0) (simp add: minus_num_def)
  have "classify landmarks =
          Inr (specRawGesture (\<lambda>i. point (landmarks ! i)),
               Fin (1 - theReal (lm_x (landmarks ! 0))), lm_y (landmarks ! 0))"
    using assms(1)
    by (simp add: classify_def Let_def tips_def d hx specRawGesture_def
        euclid_sym [of "point (landmarks ! 0)"])
  then show ?thesis
    by (simp add: detectFrame_def)
qed

text \<open>The theorem at a hand whose 21 landmarks coincide: thumb and index touch.\<close>

theorem classify_refines_spec_witness:
  "detectFrame [replicate 21 \<lparr> lm_x = Fin 0.25, lm_y = Fin 0.5, lm_z = Fin 0 \<rparr>]
     = Inr (PINCH, Fin 0.75, Fin 0.5, True)"
proof -
  let ?l = "\<lparr> lm_x = Fin 0.25, lm_y = Fin 0.5, lm_z = Fin 0 \<rparr>"
  have len: "length (replicate 21 ?l) = 21" by simp
  have fin: "list_all finiteLandmark (replicate 21 ?l)"
    by (simp add: list_all_iff finiteLandmark_def)
  show ?thesis
    using classify_refines_spec [OF len fin, of "[]"]
    by (simp add: specRawGesture_def euclid_def point_def)
qed

section \<open>Properties of the number model\<close>

lemma Fin_minus [simp]: "Fin a - Fin b = Fin (a - b)"
  by (simp add: minus_num_def)

declare Math_min.simps [simp del]

lemma Math_min_Fin [simp]: "Math_min (Fin a) (Fin b) = Fin (min a b)"
  by (simp add: Math_min.simps min_def)

lemma Math_min_PInf [simp]: "Math_min PInf (Fin b) = Fin b"
  by (simp add: Math_min.simps)

lemma Math_min_NaN [simp]: "Math_min NaN b = NaN" "Math_min a NaN = NaN"
  by (cases a; simp add: Math_min.simps)+

lemma safeDelta_range:
  assumes "Fin 0 \<le> d"
  shows "\<exists>s. Math_min d (Fin 0.05) = Fin s \<and> 0 \<le> s \<and> s \<le> 0.05"
proof (cases d)
  case (Fin x)
  with assms show ?thesis by (intro exI [of _ "min x 0.05"]) simp
next
  case PInf
  then show ?thesis by (intro exI [of _ "0.05"]) simp
qed (use assms in simp_all)

lemma lerp_Fin [simp]: "lerp (Fin x) (Fin y) (Fin t) = Fin ((1 - t) * x + t * y)"
  by (simp add: lerp_def)

section \<open>Properties of the integrator\<close>

lemma physics_particleBody [simp]:
  "physics (particleBody rng data ph smoothT time i s) = physics s"
  by (simp add: particleBody_def Let_def split: prod.splits)

lemma physics_particleLoop [simp]:
  "physics (particleLoop rng data ph smoothT time n s) = physics s"
  by (induction n) simp_all

lemma physics_useFrame [simp]:
  "physics (useFrame rng (Some data) f s) = updatePhysics f (physics s)"
  by (simp add: useFrame_def Let_def)

lemma transitionProgress_updatePhysics:
  "transitionProgress (updatePhysics f ph)
     = gestureLogic f (Math_min (delta f) (Fin 0.05)) (transitionProgress ph)"
  by (simp add: updatePhysics_def Let_def split: prod.splits)

lemma velocityRef_updatePhysics:
  "velocityRef (updatePhysics f ph)
     = velocityGuards
         (lerpedVelocity (Math_min (delta f) (Fin 0.05))
            (fst (handTracking f (Math_min (delta f) (Fin 0.05)) ph)) (velocityRef ph))"
  by (simp add: updatePhysics_def Let_def split: prod.splits)

lemma gestureLogic_Fin:
  "gestureLogic f (Fin s) (Fin p) = Fin (easeProgress (currentGesture f) s p)"
  by (simp add: gestureLogic_def easeProgress_def Let_def algebra_simps)

lemma easeProgress_range:
  assumes "0 \<le> s" and "s \<le> 0.05" and "0 \<le> p" and "p \<le> 1"
  shows "0 \<le> easeProgress g s p \<and> easeProgress g s p \<le> 1
         \<and> (easeProgress g s p = 0 \<or> 0.001 \<le> easeProgress g s p)"
proof (cases "g = OPEN_PALM")
  case True
  define x where "x = (1 - p) * (s * 1.5)"
  have "x \<le> (1 - p) * 1"
    unfolding x_def using assms by (intro mult_left_mono) simp_all
  moreover have "0 \<le> x"
    unfolding x_def using assms by (intro mult_nonneg_nonneg) simp_all
  moreover have "easeProgress g s p = (if p + x < 0.001 then 0 else p + x)"
    using True by (simp add: easeProgress_def x_def Let_def)
  ultimately show ?thesis using assms(3) by simp
next
  case False
  define x where "x = p * (s * 2.5)"
  have "x \<le> p * 1"
    unfolding x_def using assms by (intro mult_left_mono) simp_all
  moreover have "0 \<le> x"
    unfolding x_def using assms by (intro mult_nonneg_nonneg) simp_all
  moreover have "p + (0 - p) * s * 2.5 = p - x"
    by (simp add: x_def)
  then have "easeProgress g s p = (if p - x < 0.001 then 0 else p - x)"
    using False by (simp only: easeProgress_def Let_def if_False)
  ultimately show ?thesis using assms(4) by simp
qed

lemma updatePhysics_unitProgress:
  assumes "Fin 0 \<le> delta f" and "unitProgress (transitionProgress ph)"
  shows "unitProgress (transitionProgress (updatePhysics f ph))"
proof -
  obtain p where p: "transitionProgress ph = Fin p" "0 \<le> p" "p \<le> 1"
    using assms(2) unfolding unitProgress_def by blast
  obtain s where s: "Math_min (delta f) (Fin 0.05) = Fin s" "0 \<le> s" "s \<le> 0.05"
    using safeDelta_range [OF assms(1)] by blast
  have "transitionProgress (updatePhysics f ph) = Fin (easeProgress (currentGesture f) s p)"
    by (simp only: transitionProgress_updatePhysics p(1) s(1) gestureLogic_Fin)
  then show ?thesis
    using easeProgress_range [OF s(2,3) p(2,3)] unfolding unitProgress_def by blast
qed

lemma useFrame_unitProgress:
  assumes "Fin 0 \<le> delta f" and "unitProgress (transitionProgress (physics s))"
  shows "unitProgress (transitionProgress (physics (useFrame rng cloud f s)))"
proof (cases cloud)
  case None
  then show ?thesis using assms(2) by (simp add: useFrame_def)
next
  case (Some data)
  then show ?thesis using updatePhysics_unitProgress [OF assms] by simp
qed

lemma runFrames_unitProgress:
  "list_all (\<lambda>f. Fin 0 \<le> delta f) frames \<Longrightarrow>
   unitProgress (transitionProgress (physics s)) \<Longrightarrow>
   unitProgress (transitionProgress (physics (runFrames rng cloud frames s)))"
proof (induction frames arbitrary: s)
  case Nil
  then show ?case by simp
next
  case (Cons f fs)
  then show ?case by (simp add: useFrame_unitProgress)
qed

text \<open>The first load is a load on the initial refs, and the bound on the progress holds
  after every load, whatever the hand refs were.\<close>

lemma initSim_loadSim:
  "initSim data
     = loadSim data \<lparr> physics = initPhysics, posAttr = [], colAttr = [], sizeAttr = [],
                      randomCalls = 0 \<rparr>"
  by (simp add: initSim_def loadSim_def initPhysics_def)

lemma loadSim_unitProgress:
  assumes "list_all (\<lambda>f. Fin 0 \<le> delta f) frames"
  shows "unitProgress (transitionProgress (physics (runFrames rng cloud frames (loadSim data s))))"
proof -
  have "unitProgress (transitionProgress (physics (loadSim data s)))"
    by (simp add: loadSim_def unitProgress_def)
  with assms show ?thesis by (rule runFrames_unitProgress)
qed

text \<open>
  C2. The transition progress starts at 0. After any run of frames whose \<open>delta\<close> is
  nonnegative (finite or \<open>Infinity\<close>), whatever the gestures and hand data, it is a
  finite number in \<open>[0, 1]\<close> that is 0 or at least 0.001. One frame with a finite
  \<open>delta\<close> \<open>dt\<close> replaces the progress \<open>p\<close> by
  \<open>p + (targetT - p) * min dt 0.05 * speed\<close>, with \<open>targetT = 1\<close> and speed 1.5 for
  \<open>OPEN_PALM\<close>, \<open>targetT = 0\<close> and speed 2.5 otherwise, and by 0 when that is below
  0.001.
\<close>

theorem transitionProgress_bounded:
  "transitionProgress (physics (initSim data)) = Fin 0
   \<and> (list_all (\<lambda>f. Fin 0 \<le> delta f) frames \<longrightarrow>
        (\<exists>p. transitionProgress (physics (runFrames rng cloud frames (initSim data))) = Fin p
             \<and> 0 \<le> p \<and> p \<le> 1 \<and> (p = 0 \<or> 0.001 \<le> p)))
   \<and> (delta f = Fin dt \<and> transitionProgress (physics s) = Fin p \<longrightarrow>
        transitionProgress (physics (useFrame rng (Some data) f s))
          = Fin (specProgress (currentGesture f) dt p))"
proof (intro conjI impI)
  show "transitionProgress (physics (initSim data)) = Fin 0"
    by (simp add: initSim_def initPhysics_def)
next
  assume "list_all (\<lambda>f. Fin 0 \<le> delta f) frames"
  moreover have "unitProgress (transitionProgress (physics (initSim data)))"
    by (simp add: initSim_def initPhysics_def unitProgress_def)
  ultimately have "unitProgress
      (transitionProgress (physics (runFrames rng cloud frames (initSim data))))"
    by (rule runFrames_unitProgress)
  then show "\<exists>p. transitionProgress (physics (runFrames rng cloud frames (initSim data))) = Fin p
             \<and> 0 \<le> p \<and> p \<le> 1 \<and> (p = 0 \<or> 0.001 \<le> p)"
    by (simp add: unitProgress_def)
next
  assume "delta f = Fin dt \<and> transitionProgress (physics s) = Fin p"
  then show "transitionProgress (physics (useFrame rng (Some data) f s))
          = Fin (specProgress (currentGesture f) dt p)"
    by (simp add: transitionProgress_updatePhysics gestureLogic_Fin specProgress_def)
qed
theorem transitionProgress_bounded_witness:
  "delta openFrame = Fin 0.016
   \<and> list_all (\<lambda>f. Fin 0 \<le> delta f) [openFrame]
   \<and> transitionProgress (physics (initSim sampleCloud)) = Fin 0
   \<and> transitionProgress
        (physics (runFrames (\<lambda>k. 1 / 2) (Some sampleCloud) [openFrame] (initSim sampleCloud)))
      = Fin 0.024"
  using transitionProgress_bounded
    [of sampleCloud "[openFrame]" "\<lambda>k. 1 / 2" "Some sampleCloud" openFrame "0.016"
        "initSim sampleCloud" "0"]
  by (simp add: openFrame_def specProgress_def easeProgress_def)

subsection \<open>Velocity\<close>

lemma velocityGuards_range:
  "\<exists>v. velocityGuards a = Fin v \<and> 0 \<le> v \<and> v \<le> 3 \<and> (v = 0 \<or> 0.01 \<le> v)"
  by (cases a) (simp_all add: velocityGuards_def Let_def)

lemma velocityGuards_cases:
  "(a < Fin 0.01 \<longrightarrow> velocityGuards a = Fin 0)
   \<and> (isNaN a \<longrightarrow> velocityGuards a = Fin 0)
   \<and> (Fin 3 < a \<longrightarrow> velocityGuards a = Fin 3)
   \<and> (Fin 0.01 \<le> a \<and> a \<le> Fin 3 \<longrightarrow> velocityGuards a = a)"
  by (cases a) (simp_all add: velocityGuards_def Let_def)

lemma Math_sqrt_cases:
  "isNaN (Math_sqrt a) \<or> Math_sqrt a = PInf \<or> (\<exists>r. Math_sqrt a = Fin r \<and> 0 \<le> r)"
  by (cases a) simp_all

lemma handSpeed_cases:
  assumes "0 \<le> s"
  shows "isNaN (Math_min (Math_sqrt a / Fin s) (Fin 5) * Fin 1.5)
         \<or> isFinite (Math_min (Math_sqrt a / Fin s) (Fin 5) * Fin 1.5)"
proof -
  consider "isNaN (Math_sqrt a)" | "Math_sqrt a = PInf"
    | r where "Math_sqrt a = Fin r" "0 \<le> r"
    using Math_sqrt_cases by blast
  then show ?thesis
  proof cases
    case 1
    then have "Math_sqrt a = NaN" by (cases "Math_sqrt a") simp_all
    then show ?thesis by simp
  next
    case 2
    with assms show ?thesis by simp
  next
    case 3
    with assms show ?thesis by simp
  qed
qed

lemma targetVelocity_cases:
  assumes "0 \<le> s"
  shows "isNaN (fst (handTracking f (Fin s) ph)) \<or> isFinite (fst (handTracking f (Fin s) ph))"
  using handSpeed_cases [OF assms] by (simp add: handTracking_def Let_def)

lemma lerpedVelocity_cases:
  assumes "isNaN tv \<or> isFinite tv"
  shows "isNaN (lerpedVelocity (Fin s) tv (Fin v)) \<or> isFinite (lerpedVelocity (Fin s) tv (Fin v))"
  using assms by (cases tv) (auto simp: lerpedVelocity_def Let_def lerp_def)

lemma frameLerpedVelocity_cases:
  assumes "Fin 0 \<le> delta f" and "velocityRef ph = Fin v"
  shows "isNaN (frameLerpedVelocity f ph) \<or> isFinite (frameLerpedVelocity f ph)"
proof -
  obtain s where s: "Math_min (delta f) (Fin 0.05) = Fin s" "0 \<le> s"
    using safeDelta_range [OF assms(1)] by blast
  have "frameLerpedVelocity f ph
        = lerpedVelocity (Fin s) (fst (handTracking f (Fin s) ph)) (Fin v)"
    by (simp only: frameLerpedVelocity_def Let_def s(1) assms(2))
  then show ?thesis
    using lerpedVelocity_cases [OF targetVelocity_cases [OF s(2)]] by simp
qed

text \<open>
  C9. After every frame the stored velocity is a finite number in \<open>[0, 3]\<close>, and it is 0
  or at least 0.01, whatever the state and the inputs were. It is the eased velocity
  passed through the guards: a value below 0.01 becomes 0, a value above 3 becomes 3, and
  \<open>NaN\<close> becomes 0. With a nonnegative \<open>delta\<close> and a finite velocity before the frame
  (as after every earlier frame), an eased velocity that is not finite is \<open>NaN\<close>, and
  the stored velocity is then 0.
\<close>

theorem velocity_guarded:
  "(\<exists>v. velocityRef (physics (useFrame rng (Some data) f s)) = Fin v
        \<and> 0 \<le> v \<and> v \<le> 3 \<and> (v = 0 \<or> 0.01 \<le> v))
   \<and> velocityRef (physics (useFrame rng (Some data) f s))
       = velocityGuards (frameLerpedVelocity f (physics s))
   \<and> (a < Fin 0.01 \<longrightarrow> velocityGuards a = Fin 0)
   \<and> (isNaN a \<longrightarrow> velocityGuards a = Fin 0)
   \<and> (Fin 3 < a \<longrightarrow> velocityGuards a = Fin 3)
   \<and> (Fin 0.01 \<le> a \<and> a \<le> Fin 3 \<longrightarrow> velocityGuards a = a)
   \<and> (Fin 0 \<le> delta f \<and> isFinite (velocityRef (physics s))
        \<and> \<not> isFinite (frameLerpedVelocity f (physics s)) \<longrightarrow>
        isNaN (frameLerpedVelocity f (physics s))
        \<and> velocityRef (physics (useFrame rng (Some data) f s)) = Fin 0)"
proof -
  have eq: "velocityRef (physics (useFrame rng (Some data) f s))
       = velocityGuards (frameLerpedVelocity f (physics s))"
    by (simp add: velocityRef_updatePhysics frameLerpedVelocity_def Let_def)
  have range: "\<exists>v. velocityRef (physics (useFrame rng (Some data) f s)) = Fin v
        \<and> 0 \<le> v \<and> v \<le> 3 \<and> (v = 0 \<or> 0.01 \<le> v)"
    unfolding eq by (rule velocityGuards_range)
  have nan: "isNaN (frameLerpedVelocity f (physics s))
        \<and> velocityRef (physics (useFrame rng (Some data) f s)) = Fin 0"
    if h: "Fin 0 \<le> delta f \<and> isFinite (velocityRef (physics s))
        \<and> \<not> isFinite (frameLerpedVelocity f (physics s))"
  proof -
    obtain v where "velocityRef (physics s) = Fin v"
      using h isFinite_Fin by blast
    with h have "isNaN (frameLerpedVelocity f (physics s))"
      using frameLerpedVelocity_cases [of f "physics s" v] by blast
    then show ?thesis
      unfolding eq using velocityGuards_cases [of "frameLerpedVelocity f (physics s)"] by blast
  qed
  from eq range nan velocityGuards_cases [of a] show ?thesis by blast
qed

text \<open>
  The theorem at a frame that arrives with \<open>delta = 0\<close> while the detected hand has not
  moved: the hand speed is \<open>0 / 0\<close>, the eased velocity \<open>NaN\<close>, the stored velocity 0.
\<close>

theorem velocity_guarded_witness:
  "Fin 0 \<le> delta stalledFrame
   \<and> isFinite (velocityRef
        (physics (useFrame (\<lambda>k. 1 / 2) (Some sampleCloud) openFrame (initSim sampleCloud))))
   \<and> frameLerpedVelocity stalledFrame
        (physics (useFrame (\<lambda>k. 1 / 2) (Some sampleCloud) openFrame (initSim sampleCloud)))
      = NaN
   \<and> velocityRef
        (physics (useFrame (\<lambda>k. 1 / 2) (Some sampleCloud) stalledFrame
           (useFrame (\<lambda>k. 1 / 2) (Some sampleCloud) openFrame (initSim sampleCloud))))
      = Fin 0
   \<and> velocityGuards (Fin 0.005) = Fin 0
   \<and> velocityGuards (Fin 7.5) = Fin 3
   \<and> velocityGuards (Fin 2) = Fin 2"
proof -
  let ?s1 = "useFrame (\<lambda>k. 1 / 2) (Some sampleCloud) openFrame (initSim sampleCloud)"
  have p1: "physics ?s1 =
      \<lparr> transitionProgress = Fin 0.024, swayVector_x = Fin 0, swayVector_y = Fin 0,
        vortexAngleRef = Fin 0, velocityRef = Fin 0,
        prevHandPos_x = Fin 0.5, prevHandPos_y = Fin 0.5, wasDetectedRef = True \<rparr>"
    by (simp add: updatePhysics_def initSim_def initPhysics_def openFrame_def
        gestureLogic_def handTracking_def lerpedVelocity_def velocityGuards_def Let_def)
  have l: "frameLerpedVelocity stalledFrame (physics ?s1) = NaN"
    unfolding p1
    by (simp add: frameLerpedVelocity_def stalledFrame_def handTracking_def
        lerpedVelocity_def lerp_def Let_def)
  have d: "Fin 0 \<le> delta stalledFrame"
    by (simp add: stalledFrame_def)
  have v: "isFinite (velocityRef (physics ?s1))"
    unfolding p1 by simp
  from l d v
    velocity_guarded [of "\<lambda>k. 1 / 2" sampleCloud stalledFrame ?s1 "Fin 0.005"]
    velocity_guarded [of "\<lambda>k. 1 / 2" sampleCloud stalledFrame ?s1 "Fin 7.5"]
    velocity_guarded [of "\<lambda>k. 1 / 2" sampleCloud stalledFrame ?s1 "Fin 2"]
  show ?thesis by simp
qed

subsection \<open>The particle loop\<close>

lemma length_setXYZ [simp]: "length (setXYZ a i vx vy vz) = length a"
  by (simp add: setXYZ_def)

lemma nth_setXYZ:
  "j < length a \<Longrightarrow>
   setXYZ a i vx vy vz ! j =
     (if j = i * 3 + 2 then vz else if j = i * 3 + 1 then vy else if j = i * 3 then vx
      else a ! j)"
  by (simp add: setXYZ_def nth_list_update)

lemma snd_vortexPhysics:
  "snd (vortexPhysics rng ph smoothT time dx p rc) = rc + jitterDraws ph smoothT"
  by (cases p) (simp add: vortexPhysics_def jitterDraws_def Let_def split: prod.splits)

lemma snd_computedPosition:
  "snd (computedPosition rng data ph smoothT time i rc) = rc + jitterDraws ph smoothT"
  by (simp add: computedPosition_def Let_def snd_vortexPhysics)

lemma randomCalls_particleBody:
  "randomCalls (particleBody rng data ph smoothT time i s)
     = randomCalls s + jitterDraws ph smoothT"
  using snd_computedPosition [of rng data ph smoothT time i "randomCalls s"]
  by (auto simp: particleBody_def Let_def split: prod.splits)

lemma randomCalls_particleLoop:
  "randomCalls (particleLoop rng data ph smoothT time n s)
     = randomCalls s + n * jitterDraws ph smoothT"
  by (induction n) (simp_all add: randomCalls_particleBody)

lemma coordinate_numeral [simp]:
  "coordinate 1 (vx, vy, vz) = vy" "coordinate 2 (vx, vy, vz) = vz"
  by (simp_all add: numeral_2_eq_2)

lemma posAttr_particleBody:
  "posAttr (particleBody rng data ph smoothT time i s) =
     (let c = fst (computedPosition rng data ph smoothT time i (randomCalls s))
      in setXYZ (posAttr s) i
           (safetyBound (coordinate 0 c) (rd (targetTree data) (i * 3)))
           (safetyBound (coordinate 1 c) (rd (targetTree data) (i * 3 + 1)))
           (safetyBound (coordinate 2 c) (rd (targetTree data) (i * 3 + 2))))"
  by (simp add: particleBody_def Let_def numeral_2_eq_2 split: prod.splits)

lemma colAttr_particleBody:
  "colAttr (particleBody rng data ph smoothT time i s) =
     (let c = colorLogic data ph smoothT i
      in setXYZ (colAttr s) i (coordinate 0 c) (coordinate 1 c) (coordinate 2 c))"
  by (simp add: particleBody_def Let_def numeral_2_eq_2 split: prod.splits)

lemma length_posAttr_particleLoop [simp]:
  "length (posAttr (particleLoop rng data ph smoothT time n s)) = length (posAttr s)"
  by (induction n) (simp_all add: posAttr_particleBody Let_def)

lemma length_colAttr_particleLoop [simp]:
  "length (colAttr (particleLoop rng data ph smoothT time n s)) = length (colAttr s)"
  by (induction n) (simp_all add: colAttr_particleBody Let_def)

lemma coordinate_cases: "k < 3 \<Longrightarrow> k = 0 \<or> k = 1 \<or> k = (2::nat)"
  by arith

text \<open>After \<open>n\<close> iterations, particle \<open>i < n\<close> holds its bounded position.\<close>

lemma posAttr_particleLoop:
  assumes "i < n" and "k < 3" and "i * 3 + k < length (posAttr s)"
  shows "posAttr (particleLoop rng data ph smoothT time n s) ! (i * 3 + k) =
     safetyBound
       (coordinate k (fst (computedPosition rng data ph smoothT time i
          (randomCalls s + i * jitterDraws ph smoothT))))
       (rd (targetTree data) (i * 3 + k))"
  using assms(1)
proof (induction n)
  case 0
  then show ?case by simp
next
  case (Suc n)
  let ?s = "particleLoop rng data ph smoothT time n s"
  have len: "i * 3 + k < length (posAttr ?s)"
    using assms(3) by simp
  show ?case
  proof (cases "i = n")
    case True
    from coordinate_cases [OF assms(2)] len show ?thesis
      by (auto simp: True posAttr_particleBody Let_def nth_setXYZ randomCalls_particleLoop)
  next
    case False
    with Suc.prems have "i < n" by simp
    moreover have "i * 3 + k \<noteq> n * 3" "i * 3 + k \<noteq> n * 3 + 1" "i * 3 + k \<noteq> n * 3 + 2"
      using \<open>i < n\<close> assms(2) by arith+
    ultimately show ?thesis
      using Suc.IH len by (simp add: posAttr_particleBody Let_def nth_setXYZ)
  qed
qed

text \<open>While the sparkle condition is off, the colour of a particle is its base colour.\<close>

lemma colorLogic_base:
  assumes "\<not> (Fin 0.1 < smoothT \<and> Fin 0.1 < velocityRef ph)"
  shows "colorLogic data ph smoothT i =
     (rd (colors data) (i * 3), rd (colors data) (i * 3 + 1), rd (colors data) (i * 3 + 2))"
  using assms by (auto simp: colorLogic_def Let_def)

lemma colAttr_particleLoop:
  assumes "\<not> (Fin 0.1 < smoothT \<and> Fin 0.1 < velocityRef ph)"
    and "j < n * 3" and "j < length (colAttr s)"
  shows "colAttr (particleLoop rng data ph smoothT time n s) ! j = rd (colors data) j"
  using assms(2)
proof (induction n)
  case 0
  then show ?case by simp
next
  case (Suc n)
  let ?s = "particleLoop rng data ph smoothT time n s"
  have len: "j < length (colAttr ?s)"
    using assms(3) by simp
  show ?case
  proof (cases "j < n * 3")
    case True
    then show ?thesis
      using Suc.IH len by (simp add: colAttr_particleBody Let_def nth_setXYZ)
  next
    case False
    with Suc.prems have "j = n * 3 \<or> j = n * 3 + 1 \<or> j = n * 3 + 2" by arith
    then show ?thesis
      using len by (auto simp: colAttr_particleBody Let_def nth_setXYZ colorLogic_base [OF assms(1)])
  qed
qed

lemma tripCount_covers:
  "n \<le> tripCount (Fin (real n) / Fin 3) * 3"
proof -
  have "real n / 3 \<le> real_of_int \<lceil>real n / 3\<rceil>" by (rule le_of_int_ceiling)
  then have "real n \<le> real_of_int \<lceil>real n / 3\<rceil> * 3" by linarith
  moreover have "0 \<le> \<lceil>real n / 3\<rceil>" by simp
  then have "real (nat \<lceil>real n / 3\<rceil>) = real_of_int \<lceil>real n / 3\<rceil>" by simp
  ultimately have "real n \<le> real (nat \<lceil>real n / 3\<rceil> * 3)" by simp
  then have "n \<le> nat \<lceil>real n / 3\<rceil> * 3" by (simp only: of_nat_le_iff)
  then show ?thesis by simp
qed

lemma colAttr_useFrame_base:
  assumes "length (colAttr s) = length (colors data)"
    and "length (colors data) \<le> length (positions data)"
    and "\<not> (Fin 0.1 < smoothstep (transitionProgress (updatePhysics f (physics s))) (Fin 0) (Fin 1)
            \<and> Fin 0.1 < velocityRef (updatePhysics f (physics s)))"
  shows "colAttr (useFrame rng (Some data) f s) = colors data"
proof (rule nth_equalityI)
  show "length (colAttr (useFrame rng (Some data) f s)) = length (colors data)"
    using assms(1) by (simp add: useFrame_def Let_def)
next
  fix j
  assume "j < length (colAttr (useFrame rng (Some data) f s))"
  then have j: "j < length (colors data)"
    using assms(1) by (simp add: useFrame_def Let_def)
  with assms(2) tripCount_covers [of "length (positions data)"]
  have "j < tripCount (Fin (real (length (positions data))) / Fin 3) * 3" by simp
  then have "colAttr (useFrame rng (Some data) f s) ! j = rd (colors data) j"
    using assms(1,3) j by (simp add: useFrame_def Let_def colAttr_particleLoop)
  with j show "colAttr (useFrame rng (Some data) f s) ! j = colors data ! j"
    by (simp add: rd_def)
qed

subsection \<open>Colour\<close>

lemma velocity_stays_zero:
  assumes "\<not> isDetected (hand f)" and "velocityRef ph = Fin 0"
  shows "velocityRef (updatePhysics f ph) = Fin 0"
proof -
  let ?t = "Math_min (delta f) (Fin 0.05) * Fin 2"
  have "velocityGuards ((Fin 1 - ?t) * Fin 0 + ?t * Fin 0) = Fin 0"
    by (cases ?t) (simp_all add: velocityGuards_def minus_num_def Let_def)
  then show ?thesis
    using assms
    by (simp add: velocityRef_updatePhysics handTracking_def lerpedVelocity_def lerp_def Let_def)
qed

lemma colorTrace_base:
  "list_all (\<lambda>f. \<not> isDetected (hand f)) frames \<Longrightarrow>
   velocityRef (physics s) = Fin 0 \<Longrightarrow>
   length (colAttr s) = length (colors data) \<Longrightarrow>
   length (colors data) \<le> length (positions data) \<Longrightarrow>
   list_all (\<lambda>c. c = colors data) (colorTrace rng (Some data) frames s)"
proof (induction frames arbitrary: s)
  case Nil
  then show ?case by simp
next
  case (Cons f fs)
  let ?s = "useFrame rng (Some data) f s"
  have v: "velocityRef (physics ?s) = Fin 0"
    using Cons.prems(1,2) by (simp add: velocity_stays_zero)
  then have c: "colAttr ?s = colors data"
    using Cons.prems(3,4) by (intro colAttr_useFrame_base) simp_all
  then have "length (colAttr ?s) = length (colors data)" by simp
  with Cons.IH [of ?s] Cons.prems(1,4) v c show ?case by simp
qed

lemma colorTrace_still:
  "list_all (\<lambda>v. v = Fin 0) (velocityTrace rng (Some data) frames s) \<Longrightarrow>
   length (colAttr s) = length (colors data) \<Longrightarrow>
   length (colors data) \<le> length (positions data) \<Longrightarrow>
   list_all (\<lambda>c. c = colors data) (colorTrace rng (Some data) frames s)"
proof (induction frames arbitrary: s)
  case Nil
  then show ?case by simp
next
  case (Cons f fs)
  let ?s = "useFrame rng (Some data) f s"
  have v: "velocityRef (updatePhysics f (physics s)) = Fin 0"
    using Cons.prems(1) by simp
  then have c: "colAttr ?s = colors data"
    using Cons.prems(2,3) by (intro colAttr_useFrame_base) simp_all
  then have "length (colAttr ?s) = length (colors data)" by simp
  with Cons.IH [of ?s] Cons.prems(1,3) c show ?case by simp
qed

text \<open>
  C1. The colour buffer has the length of the base colours, and the cloud has at least as
  many position entries as colour entries (both hold three per particle). Whatever the
  buffer held before, a frame that ends with velocity 0 writes exactly the base colours
  into it. So in a run of frames that all end with velocity 0, whatever the gestures, the
  buffer equals the base colours after every frame; and a run that starts with velocity
  0 and sees no hand is such a run.
\<close>

theorem color_idempotent:
  "(length (colAttr s) = length (colors data)
      \<and> length (colors data) \<le> length (positions data)
      \<and> velocityRef (physics (useFrame rng (Some data) f s)) = Fin 0 \<longrightarrow>
      colAttr (useFrame rng (Some data) f s) = colors data)
   \<and> (length (colAttr s) = length (colors data)
      \<and> length (colors data) \<le> length (positions data)
      \<and> list_all (\<lambda>v. v = Fin 0) (velocityTrace rng (Some data) frames s) \<longrightarrow>
      list_all (\<lambda>c. c = colors data) (colorTrace rng (Some data) frames s))
   \<and> (length (colAttr s) = length (colors data)
      \<and> length (colors data) \<le> length (positions data)
      \<and> velocityRef (physics s) = Fin 0
      \<and> list_all (\<lambda>f. \<not> isDetected (hand f)) frames \<longrightarrow>
      list_all (\<lambda>c. c = colors data) (colorTrace rng (Some data) frames s))"
proof (intro conjI impI)
  assume h: "length (colAttr s) = length (colors data)
      \<and> length (colors data) \<le> length (positions data)
      \<and> velocityRef (physics (useFrame rng (Some data) f s)) = Fin 0"
  then have "velocityRef (updatePhysics f (physics s)) = Fin 0" by simp
  with h show "colAttr (useFrame rng (Some data) f s) = colors data"
    by (intro colAttr_useFrame_base) simp_all
next
  assume "length (colAttr s) = length (colors data)
      \<and> length (colors data) \<le> length (positions data)
      \<and> list_all (\<lambda>v. v = Fin 0) (velocityTrace rng (Some data) frames s)"
  then show "list_all (\<lambda>c. c = colors data) (colorTrace rng (Some data) frames s)"
    by (intro colorTrace_still) simp_all
next
  assume "length (colAttr s) = length (colors data)
      \<and> length (colors data) \<le> length (positions data)
      \<and> velocityRef (physics s) = Fin 0
      \<and> list_all (\<lambda>f. \<not> isDetected (hand f)) frames"
  then show "list_all (\<lambda>c. c = colors data) (colorTrace rng (Some data) frames s)"
    by (intro colorTrace_base) simp_all
qed

text \<open>The theorem on a buffer that earlier frames left boosted: two idle frames both
  write the base colours.\<close>

theorem color_idempotent_witness:
  "colAttr sparkledSim \<noteq> colors sampleCloud
   \<and> velocityRef (physics sparkledSim) = Fin 0
   \<and> list_all (\<lambda>f. \<not> isDetected (hand f)) [idleFrame, idleFrame]
   \<and> colorTrace halfRandom (Some sampleCloud) [idleFrame, idleFrame] sparkledSim
      = [colors sampleCloud, colors sampleCloud]"
  using color_idempotent
    [of sparkledSim sampleCloud halfRandom idleFrame "[idleFrame, idleFrame]"]
  by (simp add: sparkledSim_def sampleCloud_def idleFrame_def initPhysics_def)

subsection \<open>Safety bounds\<close>

lemma computedPosition_cong:
  assumes "\<forall>k'<3. rd (targetTree data') (i * 3 + k') = rd (targetTree data) (i * 3 + k')
                 \<and> rd (targetCloud data') (i * 3 + k') = rd (targetCloud data) (i * 3 + k')"
  shows "computedPosition rng data' ph smoothT time i rc
         = computedPosition rng data ph smoothT time i rc"
proof -
  have "rd (targetTree data') (i * 3 + 0) = rd (targetTree data) (i * 3 + 0)"
       "rd (targetTree data') (i * 3 + 1) = rd (targetTree data) (i * 3 + 1)"
       "rd (targetTree data') (i * 3 + 2) = rd (targetTree data) (i * 3 + 2)"
       "rd (targetCloud data') (i * 3 + 0) = rd (targetCloud data) (i * 3 + 0)"
       "rd (targetCloud data') (i * 3 + 1) = rd (targetCloud data) (i * 3 + 1)"
       "rd (targetCloud data') (i * 3 + 2) = rd (targetCloud data) (i * 3 + 2)"
    using assms [THEN spec, of 0] assms [THEN spec, of 1] assms [THEN spec, of 2]
    by simp_all
  then show ?thesis
    by (simp add: computedPosition_def Let_def)
qed

lemma posAttr_useFrame:
  assumes "length (posAttr s) = length (positions data)"
    and "k < 3" and "i * 3 + k < length (positions data)"
  shows "posAttr (useFrame rng (Some data) f s) ! (i * 3 + k)
         = safetyBound (coordinate k (frameComputed rng data f s i))
             (rd (targetTree data) (i * 3 + k))"
proof -
  have "i * 3 < tripCount (Fin (real (length (positions data))) / Fin 3) * 3"
    using assms(3) tripCount_covers [of "length (positions data)"] by simp
  then have "i < tripCount (Fin (real (length (positions data))) / Fin 3)" by simp
  then show ?thesis
    using assms by (simp add: useFrame_def frameComputed_def Let_def posAttr_particleLoop)
qed

lemma safetyBound_finite: "isFinite d \<Longrightarrow> isFinite (safetyBound c d)"
  by (simp add: safetyBound_def)

lemma posAttr_useFrame_finite:
  assumes "list_all isFinite (targetTree data)"
    and "length (targetTree data) = length (positions data)"
    and "length (posAttr s) = length (positions data)"
  shows "list_all isFinite (posAttr (useFrame rng (Some data) f s))"
  unfolding list_all_length
proof (intro allI impI)
  fix j
  assume "j < length (posAttr (useFrame rng (Some data) f s))"
  then have j: "j < length (positions data)"
    using assms(3) by (simp add: useFrame_def Let_def)
  have len: "length (targetTree data) = length (positions data)"
    using assms(2) .
  have "isFinite (targetTree data ! j)"
    using assms(1) j len by (simp add: list_all_length)
  then have fin: "isFinite (rd (targetTree data) j)"
    using j len by (simp add: rd_def)
  have "posAttr (useFrame rng (Some data) f s) ! ((j div 3) * 3 + j mod 3)
        = safetyBound (coordinate (j mod 3) (frameComputed rng data f s (j div 3)))
            (rd (targetTree data) ((j div 3) * 3 + j mod 3))"
    using assms(3) j by (intro posAttr_useFrame) simp_all
  then show "isFinite (posAttr (useFrame rng (Some data) f s) ! j)"
    using fin by (simp add: safetyBound_finite)
qed

lemma length_posAttr_useFrame [simp]:
  "length (posAttr (useFrame rng cloud f s)) = length (posAttr s)"
  by (cases cloud) (simp_all add: useFrame_def Let_def)

lemma runFrames_finite:
  assumes "list_all isFinite (targetTree data)"
    and "length (targetTree data) = length (positions data)"
  shows "length (posAttr s) = length (positions data) \<Longrightarrow> list_all isFinite (posAttr s) \<Longrightarrow>
         list_all isFinite (posAttr (runFrames rng (Some data) frames s))"
proof (induction frames arbitrary: s)
  case Nil
  then show ?case by simp
next
  case (Cons f fs)
  have "list_all isFinite (posAttr (useFrame rng (Some data) f s))"
    using assms Cons.prems(1) by (rule posAttr_useFrame_finite)
  with Cons.IH [of "useFrame rng (Some data) f s"] Cons.prems(1) show ?case by simp
qed

section \<open>Properties of the builder\<close>

lemma isFinite_sanitize [simp]: "isFinite (sanitize v)"
  by (simp add: sanitize_def)

lemma isFinite_plus_Fin: "isFinite a \<Longrightarrow> isFinite (a + Fin b)"
  by (cases a) simp_all

lemma list_all_update:
  "list_all P xs \<Longrightarrow> P v \<Longrightarrow> list_all P (xs[i := v])"
  using set_update_subset_insert [of xs i v] by (auto simp: list_all_iff)

lemma imageReconstruction_size:
  "imageReconstruction rng width height imgData i rc = (p, c, sz, rc') \<Longrightarrow> isFinite sz"
  by (auto simp: imageReconstruction_def proceduralShape_def Let_def
      split: option.splits if_splits)

text \<open>Reading the three entries just written gives the updated array back.\<close>

lemma readback:
  "t[i := rd (t[i := a, Suc i := b, Suc (Suc i) := c]) i,
     Suc i := rd (t[i := a, Suc i := b, Suc (Suc i) := c]) (Suc i),
     Suc (Suc i) := rd (t[i := a, Suc i := b, Suc (Suc i) := c]) (Suc (Suc i))]
   = t[i := a, Suc i := b, Suc (Suc i) := c]"
  by (rule nth_equalityI) (auto simp: nth_list_update rd_def)

lemma generateBody_filled:
  assumes "filled d"
  shows "filled (fst (generateBody rng width height imgData i (d, rc)))"
proof -
  obtain p c sz rc1 where ir: "imageReconstruction rng width height imgData i rc = (p, c, sz, rc1)"
    by (cases "imageReconstruction rng width height imgData i rc") auto
  obtain dx0 dy0 dz0 where p: "p = (dx0, dy0, dz0)" by (cases p) auto
  obtain r g b where c: "c = (r, g, b)" by (cases c) auto
  obtain gx0 gy0 gz0 rc2 where gal: "generateGalaxyShape rng rc1 = ((gx0, gy0, gz0), rc2)"
    by (cases "generateGalaxyShape rng rc1") auto
  have sz: "isFinite sz"
    using ir by (rule imageReconstruction_size)
  have pos: "positions d = targetTree d"
    using assms by (simp add: filled_def)
  show ?thesis
    using assms sz
    by (simp add: generateBody_def ir p c gal Let_def filled_def pos readback
        list_all_update isFinite_plus_Fin)
qed

lemma generateBody_lengths:
  assumes "sameLengths d n"
  shows "sameLengths (fst (generateBody rng width height imgData i (d, rc))) n"
  using assms
  by (simp add: generateBody_def sameLengths_def Let_def split: prod.splits)

lemma generateLoop_inv:
  assumes "filled d" and "sameLengths d n"
  shows "filled (fst (generateLoop rng width height imgData k (d, rc)))
         \<and> sameLengths (fst (generateLoop rng width height imgData k (d, rc))) n"
proof (induction k)
  case 0
  with assms show ?case by simp
next
  case (Suc k)
  obtain d' rc' where st: "generateLoop rng width height imgData k (d, rc) = (d', rc')"
    by (cases "generateLoop rng width height imgData k (d, rc)") auto
  with Suc show ?case
    by (simp add: generateBody_filled generateBody_lengths)
qed

lemma validCloud_iff: "sameLengths d n \<Longrightarrow> filled d \<Longrightarrow> validCloud d"
  by (simp add: validCloud_def sameLengths_def filled_def)

lemma newFloat32Array_nat:
  "n \<le> 75000 \<Longrightarrow> newFloat32Array (Fin (real n)) = Inr (replicate n (Fin 0))"
proof -
  assume "n \<le> 75000"
  then have "int n \<le> 2 ^ 53 - 1" by simp
  then show ?thesis by (simp add: Let_def)
qed

text \<open>With a count that is a positive integer, \<open>generateAll\<close> returns a complete cloud.\<close>

lemma generateAll_valid:
  assumes "validCount width height = Fin (real n)" and "n \<le> 25000"
  shows "\<exists>data rc'. generateAll rng rc width height ctx = Inr (data, rc')
           \<and> validCloud data \<and> sameLengths data n \<and> positions data = targetTree data"
proof -
  let ?img = "case ctx of Some c \<Rightarrow> if Fin 0 < width then c width height else None
                        | None \<Rightarrow> None"
  let ?d0 = "\<lparr> positions = replicate (3 * n) (Fin 0), targetTree = replicate (3 * n) (Fin 0),
               targetCloud = replicate (3 * n) (Fin 0), colors = replicate (3 * n) (Fin 0),
               sizes = replicate n (Fin 0) \<rparr>"
  have a3: "newFloat32Array (Fin (real n * 3)) = Inr (replicate (3 * n) (Fin 0))"
    using newFloat32Array_nat [of "3 * n"] assms(2)
    by (simp add: mult.commute del: newFloat32Array.simps)
  have a1: "newFloat32Array (Fin (real n)) = Inr (replicate n (Fin 0))"
    using newFloat32Array_nat [of n] assms(2) by (simp del: newFloat32Array.simps)
  have run: "generateAll rng rc width height ctx
             = Inr (generateLoop rng width height ?img n (?d0, rc))"
    by (simp add: generateAll_def assms(1) a3 a1 Let_def del: newFloat32Array.simps)
  have "filled ?d0" by (simp add: filled_def list_all_iff)
  moreover have "sameLengths ?d0 n" by (simp add: sameLengths_def)
  ultimately have inv: "filled (fst (generateLoop rng width height ?img n (?d0, rc)))
         \<and> sameLengths (fst (generateLoop rng width height ?img n (?d0, rc))) n"
    by (rule generateLoop_inv)
  obtain data rc' where res: "generateLoop rng width height ?img n (?d0, rc) = (data, rc')"
    by (cases "generateLoop rng width height ?img n (?d0, rc)") auto
  with inv have "validCloud data \<and> sameLengths data n \<and> positions data = targetTree data"
    by (auto simp: validCloud_iff filled_def)
  with run res show ?thesis by simp
qed

subsection \<open>The particle count\<close>

lemma validCount_grid:
  "validCount (Fin (of_int c)) (Fin (of_int r))
     = (if 0 < c \<and> 0 < r then Fin (of_int (c * r)) else Fin 25000)"
  by (simp add: validCount_def PARTICLE_COUNT_def)

lemma validCount_fallback [simp]: "validCount (Fin 0) (Fin 0) = Fin (real 25000)"
  by (simp add: validCount_def PARTICLE_COUNT_def)

text \<open>Whatever the size of the image, the grid gives a count between 1 and 25000.\<close>

lemma grid_count:
  "\<exists>n. validCount (gridCols img) (gridRows img) = Fin (real n) \<and> 1 \<le> n \<and> n \<le> 25000"
proof -
  let ?w = "real (img_width img)" and ?h = "real (img_height img)"
  have default: "\<exists>n. Fin 25000 = Fin (real n) \<and> 1 \<le> n \<and> n \<le> (25000::nat)"
    by (intro exI [of _ 25000]) simp
  consider (nan) "img_height img = 0" "img_width img = 0"
    | (inf) "img_height img = 0" "img_width img \<noteq> 0"
    | (fin) "img_height img \<noteq> 0"
    by blast
  then show ?thesis
  proof cases
    case nan
    then have "validCount (gridCols img) (gridRows img) = Fin 25000"
      by (simp add: gridCols_def gridRows_def validCount_def PARTICLE_COUNT_def Let_def)
    with default show ?thesis by simp
  next
    case inf
    then have "validCount (gridCols img) (gridRows img) = Fin 25000"
      by (simp add: gridCols_def gridRows_def validCount_def PARTICLE_COUNT_def Let_def)
    with default show ?thesis by simp
  next
    case fin
    define c where "c = \<lfloor>sqrt (25000 * (?w / ?h))\<rfloor>"
    have c0: "0 \<le> c" by (simp add: c_def)
    have cols: "gridCols img = Fin (of_int c)"
      using fin by (simp add: gridCols_def PARTICLE_COUNT_def Let_def c_def not_less)
    show ?thesis
    proof (cases "c = 0")
      case True
      then have "validCount (gridCols img) (gridRows img) = Fin 25000"
        by (simp add: cols validCount_def PARTICLE_COUNT_def)
      with default show ?thesis by simp
    next
      case False
      with c0 have cpos: "0 < c" by simp
      define r where "r = \<lfloor>25000 / real_of_int c\<rfloor>"
      have r0: "0 \<le> r" using cpos by (simp add: r_def)
      have rows: "gridRows img = Fin (of_int r)"
        using cpos by (simp add: gridRows_def cols PARTICLE_COUNT_def Let_def r_def)
      have "real_of_int r \<le> 25000 / real_of_int c"
        unfolding r_def by (rule of_int_floor_le)
      then have "real_of_int r * real_of_int c \<le> 25000"
        using cpos by (simp add: pos_le_divide_eq)
      then have "real_of_int (c * r) \<le> real_of_int 25000"
        by (simp add: mult.commute)
      then have le: "c * r \<le> 25000" by (simp only: of_int_le_iff)
      show ?thesis
      proof (cases "0 < r")
        case True
        with cpos have pos: "1 \<le> c * r"
          by (smt (verit) mult_pos_pos)
        have "validCount (gridCols img) (gridRows img) = Fin (real (nat (c * r)))"
          using cpos True pos by (simp add: cols rows validCount_grid)
        moreover have "1 \<le> nat (c * r)" "nat (c * r) \<le> 25000"
          using pos le by simp_all
        ultimately show ?thesis by blast
      next
        case False
        then have "validCount (gridCols img) (gridRows img) = Fin 25000"
          by (simp add: cols rows validCount_grid)
        with default show ?thesis by simp
      qed
    qed
  qed
qed

lemma completeCloudI:
  "validCloud d \<Longrightarrow> sameLengths d n \<Longrightarrow> 1 \<le> n \<Longrightarrow> positions d = targetTree d
   \<Longrightarrow> completeCloud d \<and> particleCount d = n"
  by (simp add: completeCloud_def particleCount_def sameLengths_def)

lemma generateAll_fallback:
  "\<exists>data rc'. generateAll rng rc (Fin 0) (Fin 0) None = Inr (data, rc')
      \<and> completeCloud data \<and> particleCount data = 25000"
proof -
  obtain data rc' where "generateAll rng rc (Fin 0) (Fin 0) None = Inr (data, rc')"
      "validCloud data" "sameLengths data 25000" "positions data = targetTree data"
    using generateAll_valid [of "Fin 0" "Fin 0" 25000 rng rc None] by auto
  then show ?thesis
    using completeCloudI [of data 25000] by auto
qed

lemma processImage_complete:
  assumes "processImage rng img rc = Inr (data, rc')"
  shows "completeCloud data \<and> particleCount data \<le> 25000
         \<and> Fin (real (particleCount data)) = validCount (gridCols img) (gridRows img)"
proof -
  obtain n where n: "validCount (gridCols img) (gridRows img) = Fin (real n)"
      "1 \<le> n" "n \<le> 25000"
    using grid_count by blast
  have run: "generateAll rng rc (gridCols img) (gridRows img) (Some (context2D img))
             = Inr (data, rc')"
    using assms by (simp add: processImage_def Let_def split: if_splits)
  obtain d r where "generateAll rng rc (gridCols img) (gridRows img) (Some (context2D img))
                    = Inr (d, r)"
      "validCloud d" "sameLengths d n" "positions d = targetTree d"
    using generateAll_valid [OF n(1,3)] by blast
  with run have "validCloud data" "sameLengths data n" "positions data = targetTree data"
    by simp_all
  then show ?thesis
    using completeCloudI [of data n] n by simp
qed

subsection \<open>Settling the promise\<close>

lemma safeResolve_first:
  assumes "\<not> hasResolved b" and "promise b = Pending"
  shows "hasResolved (safeResolve data b) \<and> promise (safeResolve data b) = Fulfilled data
         \<and> resolveCalls (safeResolve data b) = resolveCalls b + 1"
  using assms by (simp add: safeResolve_def resolve_def)

lemma safeResolve_later:
  assumes "hasResolved b"
  shows "safeResolve data b = b"
  using assms by (simp add: safeResolve_def)

lemma resolveFallback_first:
  assumes "\<not> hasResolved b" and "promise b = Pending"
  shows "\<exists>data. hasResolved (resolveFallback rng b)
           \<and> promise (resolveFallback rng b) = Fulfilled data
           \<and> resolveCalls (resolveFallback rng b) = resolveCalls b + 1
           \<and> completeCloud data \<and> particleCount data = 25000"
proof -
  obtain data rc' where g: "generateAll rng (randomCount b) (Fin 0) (Fin 0) None = Inr (data, rc')"
      "completeCloud data" "particleCount data = 25000"
    using generateAll_fallback by blast
  have "\<not> hasResolved (b \<lparr> randomCount := rc' \<rparr>)" "promise (b \<lparr> randomCount := rc' \<rparr>) = Pending"
    using assms by simp_all
  from safeResolve_first [OF this, of data] g show ?thesis
    by (simp add: resolveFallback_def)
qed

lemma resolveFallback_later:
  assumes "hasResolved b"
  shows "hasResolved (resolveFallback rng b) \<and> promise (resolveFallback rng b) = promise b
         \<and> resolveCalls (resolveFallback rng b) = resolveCalls b"
  using assms by (simp add: resolveFallback_def safeResolve_def split: sum.splits)

lemma handle_first:
  assumes "\<not> hasResolved b" and "promise b = Pending"
  shows "\<exists>data. hasResolved (handle rng img ev b)
           \<and> promise (handle rng img ev b) = Fulfilled data
           \<and> resolveCalls (handle rng img ev b) = resolveCalls b + 1
           \<and> completeCloud data \<and> particleCount data \<le> 25000"
proof (cases ev)
  case Load
  show ?thesis
  proof (cases "processImage rng img (randomCount b)")
    case (Inl e)
    with Load resolveFallback_first [OF assms, of rng] show ?thesis
      by (auto simp: onload_def)
  next
    case (Inr res)
    obtain data rc' where res: "res = (data, rc')" by (cases res) auto
    have c: "completeCloud data \<and> particleCount data \<le> 25000"
      using processImage_complete [of rng img "randomCount b" data rc'] Inr res by simp
    have "\<not> hasResolved (b \<lparr> randomCount := rc' \<rparr>)" "promise (b \<lparr> randomCount := rc' \<rparr>) = Pending"
      using assms by simp_all
    from safeResolve_first [OF this, of data] c Load Inr res show ?thesis
      by (simp add: onload_def)
  qed
next
  case LoadError
  with resolveFallback_first [OF assms, of rng] show ?thesis
    by (auto simp: onerror_def)
next
  case Timeout
  with resolveFallback_first [OF assms, of rng] assms(1) show ?thesis
    by (auto simp: onTimeout_def)
qed

lemma handle_later:
  assumes "hasResolved b"
  shows "hasResolved (handle rng img ev b) \<and> promise (handle rng img ev b) = promise b
         \<and> resolveCalls (handle rng img ev b) = resolveCalls b"
proof (cases ev)
  case Load
  with assms resolveFallback_later [OF assms, of rng] show ?thesis
    by (simp add: onload_def safeResolve_def split: sum.splits prod.splits)
next
  case LoadError
  with resolveFallback_later [OF assms, of rng] show ?thesis
    by (simp add: onerror_def)
next
  case Timeout
  with assms show ?thesis by (simp add: onTimeout_def)
qed

lemma run_later:
  "hasResolved b \<Longrightarrow>
   promise (generateParticlesFromImage rng img evs b) = promise b
   \<and> resolveCalls (generateParticlesFromImage rng img evs b) = resolveCalls b"
proof (induction evs arbitrary: b)
  case Nil
  then show ?case by simp
next
  case (Cons ev evs)
  from handle_later [OF Cons.prems, of rng img ev] Cons.IH [of "handle rng img ev b"]
  show ?case by simp
qed

lemma run_first:
  assumes "evs \<noteq> []"
  shows "\<exists>data. promise (generateParticlesFromImage rng img evs initBuilder) = Fulfilled data
           \<and> promise (generateParticlesFromImage rng img [hd evs] initBuilder) = Fulfilled data
           \<and> resolveCalls (generateParticlesFromImage rng img evs initBuilder) = 1
           \<and> completeCloud data \<and> particleCount data \<le> 25000"
proof -
  obtain ev rest where evs: "evs = ev # rest"
    using assms by (cases evs) auto
  have "\<not> hasResolved initBuilder" "promise initBuilder = Pending"
    by (simp_all add: initBuilder_def)
  from handle_first [OF this, of rng img ev]
  obtain data where d: "hasResolved (handle rng img ev initBuilder)"
      "promise (handle rng img ev initBuilder) = Fulfilled data"
      "resolveCalls (handle rng img ev initBuilder) = resolveCalls initBuilder + 1"
      "completeCloud data" "particleCount data \<le> 25000"
    by blast
  from run_later [OF d(1), of rng img rest] d show ?thesis
    by (simp add: evs initBuilder_def)
qed

subsection \<open>The procedural shape\<close>

lemma sizes_generateBody_None:
  "sizes (fst (generateBody rng width height None i (d, rc))) = (sizes d)[i := Fin 0.3]"
  by (simp add: generateBody_def imageReconstruction_def proceduralShape_def Let_def
      split: prod.splits)

lemma length_sizes_generateLoop:
  "length (sizes (fst (generateLoop rng width height imgData k (d, rc)))) = length (sizes d)"
proof (induction k)
  case 0
  then show ?case by simp
next
  case (Suc k)
  obtain d' rc' where st: "generateLoop rng width height imgData k (d, rc) = (d', rc')"
    by (cases "generateLoop rng width height imgData k (d, rc)") auto
  with Suc show ?case
    by (simp add: generateBody_def Let_def split: prod.splits)
qed

lemma sizes_generateLoop_None:
  assumes "j < k" and "j < length (sizes d)"
  shows "sizes (fst (generateLoop rng width height None k (d, rc))) ! j = Fin 0.3"
  using assms(1)
proof (induction k)
  case 0
  then show ?case by simp
next
  case (Suc k)
  obtain d' rc' where st: "generateLoop rng width height None k (d, rc) = (d', rc')"
    by (cases "generateLoop rng width height None k (d, rc)") auto
  have len: "length (sizes d') = length (sizes d)"
    using length_sizes_generateLoop [of rng width height None k d rc] st by simp
  show ?case
  proof (cases "j = k")
    case True
    with assms(2) len show ?thesis
      by (simp add: st sizes_generateBody_None)
  next
    case False
    with Suc.prems have "j < k" by simp
    with Suc.IH st have "sizes d' ! j = Fin 0.3" by simp
    with False show ?thesis
      by (simp add: st sizes_generateBody_None)
  qed
qed

text \<open>Without pixel data every particle comes from the procedural shape: all sizes are
  0.3.\<close>

lemma generateAll_procedural:
  assumes "validCount width height = Fin (real n)" and "n \<le> 25000"
    and "ctx = None \<or> \<not> Fin 0 < width \<or> (\<exists>c. ctx = Some c \<and> c width height = None)"
    and "generateAll rng rc width height ctx = Inr (data, rc')"
  shows "sizes data = replicate n (Fin 0.3)"
proof -
  let ?d0 = "\<lparr> positions = replicate (3 * n) (Fin 0), targetTree = replicate (3 * n) (Fin 0),
               targetCloud = replicate (3 * n) (Fin 0), colors = replicate (3 * n) (Fin 0),
               sizes = replicate n (Fin 0) \<rparr>"
  have img: "(case ctx of Some c \<Rightarrow> if Fin 0 < width then c width height else None
                        | None \<Rightarrow> None) = None"
    using assms(3) by (auto split: option.splits)
  have a3: "newFloat32Array (Fin (real n * 3)) = Inr (replicate (3 * n) (Fin 0))"
    using newFloat32Array_nat [of "3 * n"] assms(2)
    by (simp add: mult.commute del: newFloat32Array.simps)
  have a1: "newFloat32Array (Fin (real n)) = Inr (replicate n (Fin 0))"
    using newFloat32Array_nat [of n] assms(2) by (simp del: newFloat32Array.simps)
  have "generateAll rng rc width height ctx
             = Inr (generateLoop rng width height None n (?d0, rc))"
    by (simp add: generateAll_def assms(1) a3 a1 img Let_def del: newFloat32Array.simps)
  with assms(4) have data: "data = fst (generateLoop rng width height None n (?d0, rc))"
    by simp
  show ?thesis
  proof (rule nth_equalityI)
    show "length (sizes data) = length (replicate n (Fin 0.3))"
      by (simp add: data length_sizes_generateLoop)
  next
    fix j
    assume "j < length (sizes data)"
    then have "j < n" by (simp add: data length_sizes_generateLoop)
    then show "sizes data ! j = replicate n (Fin 0.3) ! j"
      by (simp add: data sizes_generateLoop_None)
  qed
qed

lemma fallback_procedural:
  assumes "\<not> hasResolved b" and "promise b = Pending"
  shows "\<exists>data. promise (resolveFallback rng b) = Fulfilled data
           \<and> particleCount data = 25000 \<and> sizes data = replicate 25000 (Fin 0.3)"
proof -
  obtain data rc' where g: "generateAll rng (randomCount b) (Fin 0) (Fin 0) None = Inr (data, rc')"
      "particleCount data = 25000"
    using generateAll_fallback by blast
  have s: "sizes data = replicate 25000 (Fin 0.3)"
    using generateAll_procedural [of "Fin 0" "Fin 0" 25000 None rng "randomCount b" data rc'] g(1)
    by simp
  have "\<not> hasResolved (b \<lparr> randomCount := rc' \<rparr>)" "promise (b \<lparr> randomCount := rc' \<rparr>) = Pending"
    using assms by simp_all
  from safeResolve_first [OF this, of data] g s show ?thesis
    by (simp add: resolveFallback_def)
qed

text \<open>A load whose pixel read throws: the procedural shape on the grid of the image.\<close>

lemma tainted_load:
  assumes "contextAvailable img" and "\<not> drawImageThrows img"
    and "context2D img (gridCols img) (gridRows img) = None"
  shows "\<exists>data. promise (generateParticlesFromImage rng img [Load] initBuilder) = Fulfilled data
           \<and> Fin (real (particleCount data)) = validCount (gridCols img) (gridRows img)
           \<and> 1 \<le> particleCount data \<and> particleCount data \<le> 25000
           \<and> sizes data = replicate (particleCount data) (Fin 0.3)"
proof -
  obtain n where n: "validCount (gridCols img) (gridRows img) = Fin (real n)"
      "1 \<le> n" "n \<le> 25000"
    using grid_count by blast
  obtain data rc' where g: "generateAll rng 0 (gridCols img) (gridRows img) (Some (context2D img))
                    = Inr (data, rc')"
      "validCloud data" "sameLengths data n" "positions data = targetTree data"
    using generateAll_valid [OF n(1,3)] by blast
  have cnt: "particleCount data = n"
    using g(3) by (simp add: particleCount_def sameLengths_def)
  have s: "sizes data = replicate n (Fin 0.3)"
    using generateAll_procedural [OF n(1,3) _ g(1)] assms(3) by simp
  have p: "processImage rng img 0 = Inr (data, rc')"
    using assms(1,2) g(1) by (simp add: processImage_def Let_def)
  have "promise (generateParticlesFromImage rng img [Load] initBuilder) = Fulfilled data"
    by (simp add: onload_def initBuilder_def p safeResolve_def resolve_def)
  with cnt s n show ?thesis by simp
qed

lemma floor_sqrt_25000: "\<lfloor>sqrt 25000\<rfloor> = (158::int)"
proof -
  have "(158::real)\<^sup>2 \<le> 25000" by simp
  then have lo: "158 \<le> sqrt 25000" by (rule real_le_rsqrt)
  have "(25000::real) < 159\<^sup>2" by simp
  then have hi: "sqrt 25000 < 159" by (intro real_less_lsqrt) simp_all
  from lo hi show ?thesis by (simp add: floor_eq_iff)
qed

lemma tainted_grid:
  "validCount (gridCols taintedImage) (gridRows taintedImage) = Fin 24964"
proof -
  have c: "gridCols taintedImage = Fin (of_int 158)"
    by (simp add: gridCols_def taintedImage_def PARTICLE_COUNT_def Let_def floor_sqrt_25000)
  have "\<lfloor>25000 / (158::real)\<rfloor> = 158" by (simp add: floor_eq_iff)
  then have r: "gridRows taintedImage = Fin (of_int 158)"
    by (simp add: gridRows_def c PARTICLE_COUNT_def Let_def)
  show ?thesis
    unfolding c r validCount_grid by simp
qed

subsection \<open>The result of a build\<close>

text \<open>
  C5. Whatever the image, the browser's answers and the order of the completion events,
  once one event has fired the promise holds a cloud whose \<open>positions\<close>,
  \<open>targetTree\<close>, \<open>targetCloud\<close> and \<open>colors\<close> arrays have length \<open>3 * N\<close> and whose
  \<open>sizes\<close> array has length \<open>N\<close>, for one \<open>N \<ge> 1\<close>; every element of the five arrays
  is finite; and \<open>positions\<close> equals \<open>targetTree\<close>.
\<close>

theorem build_complete:
  "evs \<noteq> [] \<longrightarrow>
   (\<exists>data N.
      promise (generateParticlesFromImage rng img evs initBuilder) = Fulfilled data
      \<and> 1 \<le> N
      \<and> length (positions data) = 3 * N \<and> length (targetTree data) = 3 * N
      \<and> length (targetCloud data) = 3 * N \<and> length (colors data) = 3 * N
      \<and> length (sizes data) = N
      \<and> list_all isFinite (positions data) \<and> list_all isFinite (targetTree data)
      \<and> list_all isFinite (targetCloud data) \<and> list_all isFinite (colors data)
      \<and> list_all isFinite (sizes data)
      \<and> positions data = targetTree data)"
proof
  assume "evs \<noteq> []"
  then obtain data where
      d: "promise (generateParticlesFromImage rng img evs initBuilder) = Fulfilled data"
      "completeCloud data"
    using run_first by blast
  let ?N = "length (sizes data)"
  from d(2) have "1 \<le> ?N"
      "length (positions data) = 3 * ?N" "length (targetTree data) = 3 * ?N"
      "length (targetCloud data) = 3 * ?N" "length (colors data) = 3 * ?N"
      "list_all isFinite (positions data)" "list_all isFinite (targetTree data)"
      "list_all isFinite (targetCloud data)" "list_all isFinite (colors data)"
      "list_all isFinite (sizes data)" "positions data = targetTree data"
    by (simp_all add: completeCloud_def validCloud_def particleCount_def)
  with d(1) show "\<exists>data N.
      promise (generateParticlesFromImage rng img evs initBuilder) = Fulfilled data
      \<and> 1 \<le> N
      \<and> length (positions data) = 3 * N \<and> length (targetTree data) = 3 * N
      \<and> length (targetCloud data) = 3 * N \<and> length (colors data) = 3 * N
      \<and> length (sizes data) = N
      \<and> list_all isFinite (positions data) \<and> list_all isFinite (targetTree data)
      \<and> list_all isFinite (targetCloud data) \<and> list_all isFinite (colors data)
      \<and> list_all isFinite (sizes data)
      \<and> positions data = targetTree data"
    by blast
qed

text \<open>The theorem for the unreadable square image, with the load arriving before the
  timeout.\<close>

theorem build_complete_witness:
  "\<exists>data N.
      promise (generateParticlesFromImage halfRandom taintedImage [Load, Timeout] initBuilder)
        = Fulfilled data
      \<and> 1 \<le> N
      \<and> length (positions data) = 3 * N \<and> length (targetTree data) = 3 * N
      \<and> length (targetCloud data) = 3 * N \<and> length (colors data) = 3 * N
      \<and> length (sizes data) = N
      \<and> list_all isFinite (positions data) \<and> list_all isFinite (targetTree data)
      \<and> list_all isFinite (targetCloud data) \<and> list_all isFinite (colors data)
      \<and> list_all isFinite (sizes data)
      \<and> positions data = targetTree data"
proof -
  have "[Load, Timeout] \<noteq> []" by simp
  then show ?thesis
    by (rule build_complete [of "[Load, Timeout]" halfRandom taintedImage, THEN mp])
qed

text \<open>
  C6. Once a completion event has fired, whatever events follow and in whatever order,
  the promise is fulfilled with a complete cloud, \<open>resolve\<close> has been called exactly
  once, and the value is the one the first event produced. The promise is never
  rejected. A callback that runs after the guard flag is set changes neither the promise
  nor the number of \<open>resolve\<close> calls.
\<close>

theorem build_settles_once:
  "(evs \<noteq> [] \<longrightarrow>
      (\<exists>data. promise (generateParticlesFromImage rng img evs initBuilder) = Fulfilled data
             \<and> promise (generateParticlesFromImage rng img [hd evs] initBuilder)
                 = Fulfilled data
             \<and> completeCloud data)
      \<and> resolveCalls (generateParticlesFromImage rng img evs initBuilder) = 1)
   \<and> promise (generateParticlesFromImage rng img evs initBuilder) \<noteq> Rejected
   \<and> (hasResolved b \<longrightarrow>
        promise (handle rng img ev b) = promise b
        \<and> resolveCalls (handle rng img ev b) = resolveCalls b)"
proof (intro conjI impI)
  assume "evs \<noteq> []"
  then obtain data where
      d: "promise (generateParticlesFromImage rng img evs initBuilder) = Fulfilled data"
      "promise (generateParticlesFromImage rng img [hd evs] initBuilder) = Fulfilled data"
      "resolveCalls (generateParticlesFromImage rng img evs initBuilder) = 1"
      "completeCloud data"
    using run_first by blast
  then show "\<exists>data. promise (generateParticlesFromImage rng img evs initBuilder) = Fulfilled data
             \<and> promise (generateParticlesFromImage rng img [hd evs] initBuilder)
                 = Fulfilled data
             \<and> completeCloud data"
    by blast
  from d(3) show "resolveCalls (generateParticlesFromImage rng img evs initBuilder) = 1" .
next
  show "promise (generateParticlesFromImage rng img evs initBuilder) \<noteq> Rejected"
  proof (cases "evs = []")
    case True
    then show ?thesis by (simp add: initBuilder_def)
  next
    case False
    then obtain data where
      "promise (generateParticlesFromImage rng img evs initBuilder) = Fulfilled data"
      using run_first by blast
    then show ?thesis by simp
  qed
next
  assume h: "hasResolved b"
  from handle_later [OF h, of rng img ev]
  show "promise (handle rng img ev b) = promise b"
    and "resolveCalls (handle rng img ev b) = resolveCalls b"
    by simp_all
qed

text \<open>The theorem with all three events firing, the timeout first: one call of
  \<open>resolve\<close>, and the load that arrives later changes nothing.\<close>

theorem build_settles_once_witness:
  "resolveCalls
     (generateParticlesFromImage halfRandom taintedImage [Timeout, LoadError, Load] initBuilder)
     = 1
   \<and> promise
       (generateParticlesFromImage halfRandom taintedImage [Timeout, LoadError, Load] initBuilder)
     = promise (generateParticlesFromImage halfRandom taintedImage [Timeout] initBuilder)
   \<and> hasResolved (handle halfRandom taintedImage Timeout initBuilder)
   \<and> promise (handle halfRandom taintedImage Load
                (handle halfRandom taintedImage Timeout initBuilder))
     = promise (handle halfRandom taintedImage Timeout initBuilder)"
proof -
  let ?b = "handle halfRandom taintedImage Timeout initBuilder"
  have r: "hasResolved ?b"
    using handle_first [of initBuilder halfRandom taintedImage Timeout]
    by (auto simp: initBuilder_def)
  have e: "[Timeout, LoadError, Load] \<noteq> []" by simp
  from r e
    build_settles_once [of "[Timeout, LoadError, Load]" halfRandom taintedImage ?b Load]
  show ?thesis by auto
qed

text \<open>
  C7 (amended). On a load error, on the timeout, and on a load whose canvas gives no
  context or whose \<open>drawImage\<close> throws, the cloud is the procedural shape with 25000
  particles. On a load whose pixel read throws, the cloud is the procedural shape on the
  grid of the image: its particle count is \<open>validCount cols rows\<close>, that is
  \<open>cols * rows\<close> when both are positive, and lies between 1 and 25000.
\<close>

theorem fallback_count:
  "((ev = LoadError \<or> ev = Timeout
       \<or> (ev = Load \<and> (\<not> contextAvailable img \<or> drawImageThrows img))) \<longrightarrow>
      (\<exists>data. promise (generateParticlesFromImage rng img [ev] initBuilder) = Fulfilled data
             \<and> particleCount data = 25000
             \<and> sizes data = replicate 25000 (Fin 0.3)))
   \<and> (contextAvailable img \<and> \<not> drawImageThrows img
       \<and> context2D img (gridCols img) (gridRows img) = None \<longrightarrow>
      (\<exists>data. promise (generateParticlesFromImage rng img [Load] initBuilder) = Fulfilled data
             \<and> Fin (real (particleCount data)) = validCount (gridCols img) (gridRows img)
             \<and> 1 \<le> particleCount data \<and> particleCount data \<le> 25000
             \<and> sizes data = replicate (particleCount data) (Fin 0.3)))"
proof (intro conjI impI)
  assume ev: "ev = LoadError \<or> ev = Timeout
       \<or> (ev = Load \<and> (\<not> contextAvailable img \<or> drawImageThrows img))"
  have init: "\<not> hasResolved initBuilder" "promise initBuilder = Pending"
    by (simp_all add: initBuilder_def)
  have "handle rng img ev initBuilder = resolveFallback rng initBuilder"
    using ev init(1)
    by (auto simp: onerror_def onTimeout_def onload_def processImage_def Let_def)
  with fallback_procedural [OF init, of rng]
  show "\<exists>data. promise (generateParticlesFromImage rng img [ev] initBuilder) = Fulfilled data
             \<and> particleCount data = 25000
             \<and> sizes data = replicate 25000 (Fin 0.3)"
    by simp
next
  assume "contextAvailable img \<and> \<not> drawImageThrows img
       \<and> context2D img (gridCols img) (gridRows img) = None"
  then show "\<exists>data. promise (generateParticlesFromImage rng img [Load] initBuilder) = Fulfilled data
             \<and> Fin (real (particleCount data)) = validCount (gridCols img) (gridRows img)
             \<and> 1 \<le> particleCount data \<and> particleCount data \<le> 25000
             \<and> sizes data = replicate (particleCount data) (Fin 0.3)"
    by (intro tainted_load) simp_all
qed

text \<open>The theorem on the timeout, and on the unreadable square image.\<close>

theorem fallback_count_witness:
  "map_option particleCount
     (fulfilled (promise (generateParticlesFromImage halfRandom taintedImage [Timeout] initBuilder)))
     = Some 25000
   \<and> contextAvailable taintedImage \<and> \<not> drawImageThrows taintedImage
   \<and> context2D taintedImage (gridCols taintedImage) (gridRows taintedImage) = None
   \<and> map_option (\<lambda>d. Fin (real (particleCount d)))
       (fulfilled (promise (generateParticlesFromImage halfRandom taintedImage [Load] initBuilder)))
     = Some (Fin 24964)"
proof -
  have t: "contextAvailable taintedImage \<and> \<not> drawImageThrows taintedImage
       \<and> context2D taintedImage (gridCols taintedImage) (gridRows taintedImage) = None"
    by (simp add: taintedImage_def)
  from fallback_count [of Timeout taintedImage halfRandom] t tainted_grid
  show ?thesis by auto
qed

text \<open>
  The claim as written fails on the unreadable square image: its grid is 158 by 158, and
  the procedural shape is generated with 24964 particles, not 25000.
\<close>

theorem fallback_count_counterexample:
  "map_option particleCount
     (fulfilled (promise (generateParticlesFromImage halfRandom taintedImage [Load] initBuilder)))
     = Some 24964"
proof -
  have "contextAvailable taintedImage" "\<not> drawImageThrows taintedImage"
      "context2D taintedImage (gridCols taintedImage) (gridRows taintedImage) = None"
    by (simp_all add: taintedImage_def)
  from tainted_load [OF this, of halfRandom] tainted_grid
  obtain data where
      "promise (generateParticlesFromImage halfRandom taintedImage [Load] initBuilder)
         = Fulfilled data"
      "Fin (real (particleCount data)) = Fin 24964"
    by auto
  then show ?thesis by simp
qed

text \<open>Whatever a build returns is a complete cloud.\<close>

lemma built_cloud_valid:
  assumes "promise (generateParticlesFromImage rng img evs initBuilder) = Fulfilled data"
  shows "validCloud data"
proof (cases "evs = []")
  case True
  with assms show ?thesis by (simp add: initBuilder_def)
next
  case False
  then obtain d where
      "promise (generateParticlesFromImage rng img evs initBuilder) = Fulfilled d"
      "completeCloud d"
    using run_first by blast
  with assms show ?thesis by (simp add: completeCloud_def)
qed

subsection \<open>Safety bounds of the integrator on built clouds\<close>

lemma loadSim_finite:
  assumes "validCloud data"
  shows "list_all isFinite (posAttr (runFrames rng (Some data) frames (loadSim data s)))"
proof -
  from assms have "list_all isFinite (targetTree data)"
      "length (targetTree data) = length (positions data)"
      "length (posAttr (loadSim data s)) = length (positions data)"
      "list_all isFinite (posAttr (loadSim data s))"
    by (simp_all add: validCloud_def loadSim_def)
  then show ?thesis by (rule runFrames_finite)
qed


text \<open>
  C4. The position buffer has the length of the cloud's position array. Then the entry
  a frame writes for axis \<open>k\<close> of particle \<open>i\<close> is the coordinate the frame computed for
  that particle, unless that is not finite or its magnitude exceeds 200: then it is the
  particle's \<open>targetTree\<close> entry for that axis. The entry is the same for any other cloud
  of the same size that has the same six target entries for particle \<open>i\<close>, whatever the
  entries of the other particles are. For a cloud whose \<open>targetTree\<close> array has the
  length of its position array and holds finite numbers only (as the data-model
  invariant demands and every built cloud has), every entry of the written position
  buffer is finite. In particular, for the cloud that any build returns, the position
  buffer holds finite numbers only after every run of frames.
\<close>

theorem safety_bounds:
  "(length (posAttr s) = length (positions data) \<and> k < 3
      \<and> i * 3 + k < length (positions data) \<longrightarrow>
      posAttr (useFrame rng (Some data) f s) ! (i * 3 + k)
        = (let c = coordinate k (frameComputed rng data f s i)
           in if \<not> isFinite c \<or> Fin 200 < \<bar>c\<bar> then rd (targetTree data) (i * 3 + k) else c)
      \<and> (\<forall>data'.
            length (positions data') = length (positions data)
            \<and> (\<forall>k'<3. rd (targetTree data') (i * 3 + k') = rd (targetTree data) (i * 3 + k')
                     \<and> rd (targetCloud data') (i * 3 + k') = rd (targetCloud data) (i * 3 + k'))
            \<longrightarrow> posAttr (useFrame rng (Some data') f s) ! (i * 3 + k)
                = posAttr (useFrame rng (Some data) f s) ! (i * 3 + k)))
   \<and> (list_all isFinite (targetTree data)
        \<and> length (targetTree data) = length (positions data)
        \<and> length (posAttr s) = length (positions data) \<longrightarrow>
        list_all isFinite (posAttr (useFrame rng (Some data) f s)))
   \<and> (promise (generateParticlesFromImage rng' img evs initBuilder) = Fulfilled data \<longrightarrow>
        list_all isFinite (posAttr (runFrames rng (Some data) frames (initSim data))))"
proof (intro conjI impI allI)
  assume h: "length (posAttr s) = length (positions data) \<and> k < 3
      \<and> i * 3 + k < length (positions data)"
  then show "posAttr (useFrame rng (Some data) f s) ! (i * 3 + k)
        = (let c = coordinate k (frameComputed rng data f s i)
           in if \<not> isFinite c \<or> Fin 200 < \<bar>c\<bar> then rd (targetTree data) (i * 3 + k) else c)"
    by (simp add: posAttr_useFrame safetyBound_def Let_def)
  fix data' :: PointCloudData
  assume h': "length (positions data') = length (positions data)
            \<and> (\<forall>k'<3. rd (targetTree data') (i * 3 + k') = rd (targetTree data) (i * 3 + k')
                     \<and> rd (targetCloud data') (i * 3 + k') = rd (targetCloud data) (i * 3 + k'))"
  then have "computedPosition rng data' ph smoothT time i rc
             = computedPosition rng data ph smoothT time i rc" for ph smoothT time rc
    by (intro computedPosition_cong) simp
  then have "frameComputed rng data' f s i = frameComputed rng data f s i"
    by (simp add: frameComputed_def Let_def)
  moreover have "rd (targetTree data') (i * 3 + k) = rd (targetTree data) (i * 3 + k)"
    using h h' by simp
  ultimately show "posAttr (useFrame rng (Some data') f s) ! (i * 3 + k)
                = posAttr (useFrame rng (Some data) f s) ! (i * 3 + k)"
    using h h' by (simp add: posAttr_useFrame)
next
  assume "list_all isFinite (targetTree data)
        \<and> length (targetTree data) = length (positions data)
        \<and> length (posAttr s) = length (positions data)"
  then show "list_all isFinite (posAttr (useFrame rng (Some data) f s))"
    by (intro posAttr_useFrame_finite) simp_all
next
  assume "promise (generateParticlesFromImage rng' img evs initBuilder) = Fulfilled data"
  then have "validCloud data"
    by (rule built_cloud_valid)
  then have "list_all isFinite (targetTree data)"
      "length (targetTree data) = length (positions data)"
      "length (posAttr (initSim data)) = length (positions data)"
      "list_all isFinite (posAttr (initSim data))"
    by (simp_all add: validCloud_def initSim_def)
  then show "list_all isFinite (posAttr (runFrames rng (Some data) frames (initSim data)))"
    by (rule runFrames_finite)
qed

text \<open>
  The theorem on a cloud whose dispersed target of particle 0 is \<open>NaN\<close>: the computed
  \<open>x\<close> of particle 0 is \<open>NaN\<close> and its image target is written, particle 1 comes out as
  for the intact cloud, and the intact cloud's buffer is finite throughout.
\<close>

theorem safety_bounds_witness:
  "coordinate 0 (frameComputed (\<lambda>k. 1 / 2) brokenCloud idleFrame (initSim brokenCloud) 0) = NaN
   \<and> posAttr (useFrame (\<lambda>k. 1 / 2) (Some brokenCloud) idleFrame (initSim brokenCloud)) ! 0
      = Fin 0
   \<and> posAttr (useFrame (\<lambda>k. 1 / 2) (Some brokenCloud) idleFrame (initSim brokenCloud)) ! 4
      = posAttr (useFrame (\<lambda>k. 1 / 2) (Some sampleCloud) idleFrame (initSim brokenCloud)) ! 4
   \<and> validCloud sampleCloud
   \<and> list_all isFinite
        (posAttr (useFrame (\<lambda>k. 1 / 2) (Some sampleCloud) idleFrame (initSim sampleCloud)))
   \<and> (\<exists>data. promise (generateParticlesFromImage halfRandom taintedImage [Timeout] initBuilder)
                = Fulfilled data
        \<and> list_all isFinite
              (posAttr (runFrames halfRandom (Some data) [openFrame, idleFrame] (initSim data))))"
proof -
  let ?rng = "\<lambda>k::nat. 1 / 2 :: real"
  let ?s = "initSim brokenCloud"
  have smooth: "smoothstep (transitionProgress (updatePhysics idleFrame initPhysics))
                  (Fin 0) (Fin 1) = Fin 0"
    by (simp add: updatePhysics_def idleFrame_def initPhysics_def gestureLogic_def
        smoothstep_def Let_def split: prod.splits)
  have c: "coordinate 0 (frameComputed ?rng brokenCloud idleFrame ?s 0) = NaN"
    by (simp add: frameComputed_def initSim_def smooth computedPosition_def
        vortexPhysics_def brokenCloud_def rd_def minus_num_def Let_def)
  have a0: "length (posAttr ?s) = length (positions brokenCloud) \<and> (0::nat) < 3
            \<and> 0 * 3 + 0 < length (positions brokenCloud)"
    by (simp add: initSim_def brokenCloud_def)
  have p0: "posAttr (useFrame ?rng (Some brokenCloud) idleFrame ?s) ! 0 = Fin 0"
    using safety_bounds [of ?s brokenCloud 0 0 ?rng idleFrame] a0 c
    by (simp add: brokenCloud_def rd_def)
  have a1: "length (posAttr ?s) = length (positions sampleCloud) \<and> (1::nat) < 3
            \<and> 1 * 3 + 1 < length (positions sampleCloud)"
    by (simp add: initSim_def brokenCloud_def sampleCloud_def)
  have same: "length (positions brokenCloud) = length (positions sampleCloud)
      \<and> (\<forall>k'<3. rd (targetTree brokenCloud) (1 * 3 + k') = rd (targetTree sampleCloud) (1 * 3 + k')
               \<and> rd (targetCloud brokenCloud) (1 * 3 + k')
                 = rd (targetCloud sampleCloud) (1 * 3 + k'))"
    by (simp add: brokenCloud_def sampleCloud_def rd_def numeral_3_eq_3 All_less_Suc)
  have p4: "posAttr (useFrame ?rng (Some brokenCloud) idleFrame ?s) ! (1 * 3 + 1)
            = posAttr (useFrame ?rng (Some sampleCloud) idleFrame ?s) ! (1 * 3 + 1)"
    using safety_bounds [of ?s sampleCloud 1 1 ?rng idleFrame] a1 same by blast
  have v: "validCloud sampleCloud"
    by (simp add: validCloud_def sampleCloud_def)
  have l: "length (posAttr (initSim sampleCloud)) = length (positions sampleCloud)"
    by (simp add: initSim_def)
  have f: "list_all isFinite (posAttr (useFrame ?rng (Some sampleCloud) idleFrame (initSim sampleCloud)))"
    using safety_bounds [of "initSim sampleCloud" sampleCloud 0 0 ?rng idleFrame] v l
    by (simp add: validCloud_def)
  obtain built where
      b: "promise (generateParticlesFromImage halfRandom taintedImage [Timeout] initBuilder)
            = Fulfilled built"
    using run_first [of "[Timeout]" halfRandom taintedImage] by auto
  have r: "list_all isFinite
             (posAttr (runFrames halfRandom (Some built) [openFrame, idleFrame] (initSim built)))"
    using safety_bounds
      [of "initSim built" built 0 0 halfRandom idleFrame halfRandom taintedImage "[Timeout]"
          "[openFrame, idleFrame]"] b
    by blast
  from b r have e: "\<exists>data.
        promise (generateParticlesFromImage halfRandom taintedImage [Timeout] initBuilder)
          = Fulfilled data
        \<and> list_all isFinite
              (posAttr (runFrames halfRandom (Some data) [openFrame, idleFrame] (initSim data)))"
    by blast
  from c p0 p4 v f e show ?thesis by simp
qed

end
